theory Spec2Isabelle
  imports Complex_Main "HOL-Library.Log_Nat"
begin

section \<open>Crank-Nicolson / Runge-Kutta reaction-diffusion notebook\<close>

text \<open>
  The notebook integrates a two-species reaction-diffusion system. Its Python floats are
  modelled by the type \<open>real\<close> (exact arithmetic); vectors are \<open>real list\<close>, dense
  matrices are lists of rows. Where rounding decides a property, namely for the implicit
  operators at very large \<open>sigma\<close>, the float64 computation is modelled as well
  (\<open>fl64\<close>, \<open>A_u_f64\<close>, \<open>A_v_f64\<close> below).
\<close>

subsection \<open>Errors\<close>

text \<open>
  The exceptions the script can raise. \<open>NonFinite\<close> stands for a numpy division by zero:
  numpy does not raise there but stores inf or nan, which no real number models.
\<close>

datatype error = ZeroDivisionError | IndexError | ValueError | LinAlgError | NonFinite

definition py_div :: "real \<Rightarrow> real \<Rightarrow> error + real" where
  "py_div a b = (if b = 0 then Inl ZeroDivisionError else Inr (a / b))"

definition bind_r :: "error + 'a \<Rightarrow> ('a \<Rightarrow> error + 'b) \<Rightarrow> error + 'b" where
  "bind_r m k = (case m of Inl e \<Rightarrow> Inl e | Inr x \<Rightarrow> k x)"

subsection \<open>Elementwise numpy operations\<close>

text \<open>
  The vectors handed to these operations in the script are rows of (N, J) arrays, hence of
  equal length; \<open>map2\<close> is only meant at equal lengths. A suffix \<open>_s\<close> marks the variant
  whose first argument is a Python scalar.
\<close>

definition np_multiply :: "real list \<Rightarrow> real list \<Rightarrow> real list" where
  "np_multiply xs ys = map2 (*) xs ys"

definition np_multiply_s :: "real \<Rightarrow> real list \<Rightarrow> real list" where
  "np_multiply_s a xs = map (\<lambda>x. a * x) xs"

definition np_add :: "real list \<Rightarrow> real list \<Rightarrow> real list" where
  "np_add xs ys = map2 (+) xs ys"

definition np_add_s :: "real \<Rightarrow> real list \<Rightarrow> real list" where
  "np_add_s a xs = map (\<lambda>x. a + x) xs"

definition np_subtract :: "real list \<Rightarrow> real list \<Rightarrow> real list" where
  "np_subtract xs ys = map2 (-) xs ys"

definition np_divide :: "real list \<Rightarrow> real list \<Rightarrow> real list option" where
  "np_divide xs ys = (if 0 \<in> set ys then None else Some (map2 (/) xs ys))"

subsection \<open>Reaction term\<close>

text \<open>The scalar lambdas \<open>f\<close> and \<open>g\<close>; Python's float division raises on a zero divisor.\<close>

definition f :: "real \<Rightarrow> real \<Rightarrow> real \<Rightarrow> real \<Rightarrow> error + real" where
  "f dt k0 u v =
     bind_r (py_div (u * u) (1 + u * u)) (\<lambda>q. Inr (dt * (v * (k0 + q) - u)))"

definition g :: "real \<Rightarrow> real \<Rightarrow> real \<Rightarrow> real \<Rightarrow> error + real" where
  "g dt k0 u v = bind_r (f dt k0 u v) (\<lambda>r. Inr (- r))"

text \<open>\<open>f_vec_ee\<close>: the explicit Euler reaction vector.\<close>

definition f_vec_ee :: "real \<Rightarrow> real \<Rightarrow> real list \<Rightarrow> real list \<Rightarrow> real list option" where
  "f_vec_ee dt k0 U V =
     (case np_divide (np_multiply U U) (np_add_s 1 (np_multiply U U)) of
        None \<Rightarrow> None
      | Some q \<Rightarrow> Some (np_multiply_s dt (np_subtract (np_multiply V (np_add_s k0 q)) U)))"

text \<open>The lambda \<open>f_vec\<close> local to \<open>f_vec_rk\<close>, and \<open>f_vec_rk\<close> itself.\<close>

definition f_vec :: "real \<Rightarrow> real list \<Rightarrow> real list \<Rightarrow> real list option" where
  "f_vec k0 U V =
     (case np_divide (np_multiply U U) (np_add_s 1 (np_multiply U U)) of
        None \<Rightarrow> None
      | Some q \<Rightarrow> Some (np_subtract (np_multiply V (np_add_s k0 q)) U))"

definition f_vec_rk :: "real \<Rightarrow> real \<Rightarrow> real list \<Rightarrow> real list \<Rightarrow> real list option" where
  "f_vec_rk dt k0 U V =
     (case f_vec k0 U V of None \<Rightarrow> None | Some k1 \<Rightarrow>
     (case f_vec k0 (np_add U (np_multiply_s (dt / 2) k1))
                    (np_subtract V (np_multiply_s (dt / 2) k1)) of None \<Rightarrow> None | Some k2 \<Rightarrow>
     (case f_vec k0 (np_add U (np_multiply_s (dt / 2) k2))
                    (np_subtract V (np_multiply_s (dt / 2) k2)) of None \<Rightarrow> None | Some k3 \<Rightarrow>
     (case f_vec k0 (np_add U (np_multiply_s dt k3))
                    (np_subtract V (np_multiply_s dt k3)) of None \<Rightarrow> None | Some k4 \<Rightarrow>
        Some (np_multiply_s (dt / 6)
               (np_add (np_add (np_add k1 (np_multiply_s 2 k2)) (np_multiply_s 2 k3)) k4))))))"

text \<open>
  The rate function in the words of the specification, \<open>V\<cdot>(k0 + U\<^sup>2/(1+U\<^sup>2)) - U\<close> at each
  grid point, to compare the code against.
\<close>

definition rate_spec :: "real \<Rightarrow> real list \<Rightarrow> real list \<Rightarrow> real list" where
  "rate_spec k0 U V = map2 (\<lambda>u v. v * (k0 + u\<^sup>2 / (1 + u\<^sup>2)) - u) U V"

subsection \<open>Diffusion operators\<close>

text \<open>
  \<open>numpy.diagflat v k\<close>: the square matrix of size \<open>len v + |k|\<close> that carries \<open>v\<close> on
  its \<open>k\<close>-th diagonal (entry \<open>(i, i + k)\<close>) and zero elsewhere.
\<close>

definition diagflat :: "real list \<Rightarrow> int \<Rightarrow> real list list" where
  "diagflat v k =
     (let n = length v + nat \<bar>k\<bar>
      in map (\<lambda>i. map (\<lambda>j. if int j = int i + k then v ! min i j else 0) [0..<n]) [0..<n])"

text \<open>
  The sum of two arrays of one shape. For \<open>J \<ge> 2\<close> the three summands of each operator
  below are all \<open>J \<times> J\<close>. (For \<open>J < 2\<close> numpy broadcasts summands of different shapes where
  \<open>map2\<close> truncates; the script has no run there: \<open>J = 1\<close> stops at \<open>dx\<close>, and at
  \<open>J = 0\<close> no operator conforms to the empty state, whichever its size.)
\<close>

definition mat_add :: "real list list \<Rightarrow> real list list \<Rightarrow> real list list" where
  "mat_add P Q = map2 np_add P Q"

definition sigma_u :: "real \<Rightarrow> real \<Rightarrow> real \<Rightarrow> error + real" where
  "sigma_u D_u dt dx = py_div (D_u * dt) (2 * dx * dx)"

definition sigma_v :: "real \<Rightarrow> real \<Rightarrow> real \<Rightarrow> error + real" where
  "sigma_v D_v dt dx = py_div (D_v * dt) (2 * dx * dx)"

definition A_u :: "nat \<Rightarrow> real \<Rightarrow> real list list" where
  "A_u J s =
     mat_add (mat_add (diagflat (replicate (J - 1) (- s)) (- 1))
                      (diagflat ([1 + s] @ replicate (J - 2) (1 + 2 * s) @ [1 + s]) 0))
             (diagflat (replicate (J - 1) (- s)) 1)"

definition B_u :: "nat \<Rightarrow> real \<Rightarrow> real list list" where
  "B_u J s =
     mat_add (mat_add (diagflat (replicate (J - 1) s) (- 1))
                      (diagflat ([1 - s] @ replicate (J - 2) (1 - 2 * s) @ [1 - s]) 0))
             (diagflat (replicate (J - 1) s) 1)"

definition A_v :: "nat \<Rightarrow> real \<Rightarrow> real list list" where
  "A_v J s =
     mat_add (mat_add (diagflat (replicate (J - 1) (- s)) (- 1))
                      (diagflat ([1 + s] @ replicate (J - 2) (1 + 2 * s) @ [1 + s]) 0))
             (diagflat (replicate (J - 1) (- s)) 1)"

definition B_v :: "nat \<Rightarrow> real \<Rightarrow> real list list" where
  "B_v J s =
     mat_add (mat_add (diagflat (replicate (J - 1) s) (- 1))
                      (diagflat ([1 - s] @ replicate (J - 2) (1 - 2 * s) @ [1 - s]) 0))
             (diagflat (replicate (J - 1) s) 1)"

text \<open>
  The operators in the words of the specification, entry by entry. For \<open>A\<close>:
  \<open>1 + 2\<sigma>\<close> on the diagonal of interior rows, \<open>1 + \<sigma>\<close> on the diagonal of the first and
  last row, \<open>-\<sigma>\<close> on both off-diagonal bands, zero elsewhere. For \<open>B\<close>: \<open>1 - 2\<sigma>\<close>,
  \<open>1 - \<sigma>\<close> and \<open>+\<sigma>\<close>. \<open>matrix_of J e\<close> is the \<open>J \<times> J\<close> matrix
  with entry \<open>e i j\<close> in row \<open>i\<close>, column \<open>j\<close>.
\<close>

definition A_spec :: "nat \<Rightarrow> real \<Rightarrow> nat \<Rightarrow> nat \<Rightarrow> real" where
  "A_spec J s i j =
     (if i = j then (if i = 0 \<or> i = J - 1 then 1 + s else 1 + 2 * s)
      else if i = j + 1 \<or> j = i + 1 then - s else 0)"

definition B_spec :: "nat \<Rightarrow> real \<Rightarrow> nat \<Rightarrow> nat \<Rightarrow> real" where
  "B_spec J s i j =
     (if i = j then (if i = 0 \<or> i = J - 1 then 1 - s else 1 - 2 * s)
      else if i = j + 1 \<or> j = i + 1 then s else 0)"

definition matrix_of :: "nat \<Rightarrow> (nat \<Rightarrow> nat \<Rightarrow> real) \<Rightarrow> real list list" where
  "matrix_of J e = map (\<lambda>i. map (\<lambda>j. e i j) [0..<J]) [0..<J]"

text \<open>
  The matrix-vector product, and \<open>B.dot(x)\<close>, which raises unless every row of \<open>B\<close> is as
  long as \<open>x\<close>.
\<close>

definition mat_vec :: "real list list \<Rightarrow> real list \<Rightarrow> real list" where
  "mat_vec B x = map (\<lambda>row. sum_list (map2 (*) row x)) B"

definition dot :: "real list list \<Rightarrow> real list \<Rightarrow> error + real list" where
  "dot B x = (if list_all (\<lambda>row. length row = length x) B then Inr (mat_vec B x)
              else Inl ValueError)"

subsection \<open>The implicit operators in float64\<close>

text \<open>
  The operators above have real entries. The script computes them in IEEE double
  precision, and for large \<open>sigma\<close> the sums \<open>1. + sigma\<close> and \<open>1. + 2.*sigma\<close> round to
  \<open>sigma\<close> and \<open>2\<cdot>sigma\<close>. \<open>fl64\<close> rounds a real to the nearest double, ties to even
  (53-bit significand, subnormals below \<open>2\<^sup>-\<^sup>1\<^sup>0\<^sup>2\<^sup>2\<close>; overflow is not modelled, so it is meant
  below \<open>2\<^sup>1\<^sup>0\<^sup>2\<^sup>4\<close>). \<open>add64\<close> and \<open>mul64\<close> are the float operations \<open>+\<close> and \<open>*\<close>,
  \<open>mat_add64\<close> the sum of two arrays, \<open>sigma_v_f64\<close> the script's
  \<open>float(D_v*dt)/float((2.*dx*dx))\<close>, and \<open>A_u_f64\<close>, \<open>A_v_f64\<close> the expressions for
  \<open>A_u\<close> and \<open>A_v\<close> with these operations.
\<close>

definition round_half_even :: "real \<Rightarrow> int" where
  "round_half_even x =
     (let n = \<lfloor>x\<rfloor>; r = x - of_int n
      in if r < 1 / 2 then n else if 1 / 2 < r then n + 1 else if even n then n else n + 1)"

definition fl64 :: "real \<Rightarrow> real" where
  "fl64 x =
     (let e = max (bitlen \<lfloor>\<bar>x\<bar> * 2 ^ 1074\<rfloor> - 1075) (- 1022);
          ulp = 2 powi (e - 52)
      in of_int (round_half_even (x / ulp)) * ulp)"

definition add64 :: "real \<Rightarrow> real \<Rightarrow> real" where
  "add64 x y = fl64 (x + y)"

definition mul64 :: "real \<Rightarrow> real \<Rightarrow> real" where
  "mul64 x y = fl64 (x * y)"

definition mat_add64 :: "real list list \<Rightarrow> real list list \<Rightarrow> real list list" where
  "mat_add64 P Q = map2 (map2 add64) P Q"



definition A_v_f64 :: "nat \<Rightarrow> real \<Rightarrow> real list list" where
  "A_v_f64 J s =
     mat_add64 (mat_add64 (diagflat (replicate (J - 1) (- s)) (- 1))
                          (diagflat ([add64 1 s] @ replicate (J - 2) (add64 1 (mul64 2 s)) @ [add64 1 s]) 0))
               (diagflat (replicate (J - 1) (- s)) 1)"

subsection \<open>The linear solver\<close>

text \<open>
  \<open>numpy.linalg.solve\<close> is a library routine; the time loop takes it as a parameter.
  Its contract on a square matrix \<open>A\<close>, in exact arithmetic: the result solves the system,
  and it raises LinAlgError only on a singular matrix.
\<close>

type_synonym solver = "real list list \<Rightarrow> real list \<Rightarrow> error + real list"

definition singular :: "real list list \<Rightarrow> bool" where
  "singular A \<longleftrightarrow>
     (\<exists>x. length x = length A \<and> x \<noteq> replicate (length A) 0 \<and>
          mat_vec A x = replicate (length A) 0)"

definition exact_solver :: "solver \<Rightarrow> real list list \<Rightarrow> bool" where
  "exact_solver solve A \<longleftrightarrow>
     (\<forall>b. length b = length A \<longrightarrow>
        (case solve A b of
           Inr x \<Rightarrow> length x = length A \<and> mat_vec A x = b
         | Inl e \<Rightarrow> e = LinAlgError \<and> singular A))"

subsection \<open>Initial condition and conserved mass\<close>

text \<open>The script's \<open>U\<close> and \<open>V\<close>; \<open>range(no_high, J)\<close> has \<open>J - no_high\<close> elements.\<close>

definition U_init :: "nat \<Rightarrow> nat \<Rightarrow> real list" where
  "U_init J no_high = replicate (J - no_high) (1 / 10) @ replicate no_high 2"

definition V_init :: "real \<Rightarrow> nat \<Rightarrow> real \<Rightarrow> real list \<Rightarrow> error + real list" where
  "V_init total_protein J dx U =
     (if J = 0 then Inr []
      else bind_r (py_div (total_protein - dx * sum_list U) (real J * dx))
             (\<lambda>v. Inr (replicate J v)))"

text \<open>The protein mass the script prints: \<open>numpy.sum(dx\<cdot>U + dx\<cdot>V)\<close>.\<close>

definition mass :: "real \<Rightarrow> real list \<Rightarrow> real list \<Rightarrow> real" where
  "mass dx U V = sum_list (np_add (np_multiply_s dx U) (np_multiply_s dx V))"

subsection \<open>Trajectory records and the time loop\<close>

record records =
  U_record_ee :: "real list list"
  V_record_ee :: "real list list"
  U_record_rk :: "real list list"
  V_record_rk :: "real list list"

text \<open>
  \<open>numpy.empty\<close> returns an array of the asked shape with arbitrary contents, here the
  function \<open>junk\<close>.
\<close>

definition np_empty :: "(nat \<Rightarrow> nat \<Rightarrow> real) \<Rightarrow> nat \<Rightarrow> nat \<Rightarrow> real list list" where
  "np_empty junk N J = map (\<lambda>n. map (\<lambda>j. junk n j) [0..<J]) [0..<N]"

text \<open>
  The assignment \<open>rec[ti][:] = x\<close>: the row index must exist, and \<open>x\<close> must have the
  length of the row or length one (which numpy broadcasts).
\<close>

definition set_row :: "real list list \<Rightarrow> nat \<Rightarrow> real list \<Rightarrow> error + real list list" where
  "set_row rec ti x =
     (if length rec \<le> ti then Inl IndexError
      else if length x = length (rec ! ti) then Inr (rec[ti := x])
      else if length x = 1 then Inr (rec[ti := replicate (length (rec ! ti)) (hd x)])
      else Inl ValueError)"

definition finite_or :: "'a option \<Rightarrow> error + 'a" where
  "finite_or m = (case m of None \<Rightarrow> Inl NonFinite | Some x \<Rightarrow> Inr x)"

text \<open>The four assignments of the loop body, in the order of the script.\<close>

definition update_U_ee ::
  "solver \<Rightarrow> real \<Rightarrow> real \<Rightarrow> real list list \<Rightarrow> real list list \<Rightarrow> nat \<Rightarrow> records \<Rightarrow> error + records" where
  "update_U_ee solve dt k0 Au Bu ti r =
     bind_r (dot Bu (U_record_ee r ! (ti - 1))) (\<lambda>d.
     bind_r (finite_or (f_vec_ee dt k0 (U_record_ee r ! (ti - 1)) (V_record_ee r ! (ti - 1)))) (\<lambda>fe.
     bind_r (solve Au (np_add d fe)) (\<lambda>x.
     bind_r (set_row (U_record_ee r) ti x) (\<lambda>rows.
     Inr (r\<lparr>U_record_ee := rows\<rparr>)))))"

definition update_V_ee ::
  "solver \<Rightarrow> real \<Rightarrow> real \<Rightarrow> real list list \<Rightarrow> real list list \<Rightarrow> nat \<Rightarrow> records \<Rightarrow> error + records" where
  "update_V_ee solve dt k0 Av Bv ti r =
     bind_r (dot Bv (V_record_ee r ! (ti - 1))) (\<lambda>d.
     bind_r (finite_or (f_vec_ee dt k0 (U_record_ee r ! (ti - 1)) (V_record_ee r ! (ti - 1)))) (\<lambda>fe.
     bind_r (solve Av (np_subtract d fe)) (\<lambda>x.
     bind_r (set_row (V_record_ee r) ti x) (\<lambda>rows.
     Inr (r\<lparr>V_record_ee := rows\<rparr>)))))"

definition update_U_rk ::
  "solver \<Rightarrow> real \<Rightarrow> real \<Rightarrow> real list list \<Rightarrow> real list list \<Rightarrow> nat \<Rightarrow> records \<Rightarrow> error + records" where
  "update_U_rk solve dt k0 Au Bu ti r =
     bind_r (dot Bu (U_record_rk r ! (ti - 1))) (\<lambda>d.
     bind_r (finite_or (f_vec_rk dt k0 (U_record_rk r ! (ti - 1)) (V_record_rk r ! (ti - 1)))) (\<lambda>fr.
     bind_r (solve Au (np_add d fr)) (\<lambda>x.
     bind_r (set_row (U_record_rk r) ti x) (\<lambda>rows.
     Inr (r\<lparr>U_record_rk := rows\<rparr>)))))"

definition update_V_rk ::
  "solver \<Rightarrow> real \<Rightarrow> real \<Rightarrow> real list list \<Rightarrow> real list list \<Rightarrow> nat \<Rightarrow> records \<Rightarrow> error + records" where
  "update_V_rk solve dt k0 Av Bv ti r =
     bind_r (dot Bv (V_record_rk r ! (ti - 1))) (\<lambda>d.
     bind_r (finite_or (f_vec_rk dt k0 (U_record_rk r ! (ti - 1)) (V_record_rk r ! (ti - 1)))) (\<lambda>fr.
     bind_r (solve Av (np_subtract d fr)) (\<lambda>x.
     bind_r (set_row (V_record_rk r) ti x) (\<lambda>rows.
     Inr (r\<lparr>V_record_rk := rows\<rparr>)))))"

definition loop_body ::
  "solver \<Rightarrow> real \<Rightarrow> real \<Rightarrow> real list list \<Rightarrow> real list list \<Rightarrow> real list list \<Rightarrow> real list list
     \<Rightarrow> nat \<Rightarrow> records \<Rightarrow> error + records" where
  "loop_body solve dt k0 Au Bu Av Bv ti r =
     bind_r (update_U_ee solve dt k0 Au Bu ti r) (\<lambda>r1.
     bind_r (update_V_ee solve dt k0 Av Bv ti r1) (\<lambda>r2.
     bind_r (update_U_rk solve dt k0 Au Bu ti r2) (\<lambda>r3.
     update_V_rk solve dt k0 Av Bv ti r3)))"

text \<open>\<open>for ti in range(1, N)\<close>: the body at each index in turn, stopping at an error.\<close>

fun time_loop :: "(nat \<Rightarrow> records \<Rightarrow> error + records) \<Rightarrow> nat list \<Rightarrow> records \<Rightarrow> error + records" where
  "time_loop body [] r = Inr r"
| "time_loop body (ti # tis) r = bind_r (body ti r) (time_loop body tis)"

subsection \<open>The script\<close>

text \<open>
  The literal constants of the script, and the script from top to bottom: \<open>run\<close> computes
  the grid parameters and the initial condition, \<open>simulate\<close> is the rest (operators,
  records, time loop).
\<close>

record config =
  c_L :: real
  c_J :: nat
  c_T :: real
  c_N :: nat
  c_D_v :: real
  c_k0 :: real
  c_total_protein :: real
  c_no_high :: nat

definition simulate ::
  "solver \<Rightarrow> (nat \<Rightarrow> nat \<Rightarrow> nat \<Rightarrow> real) \<Rightarrow> nat \<Rightarrow> nat \<Rightarrow> real \<Rightarrow> real \<Rightarrow> real \<Rightarrow> real
     \<Rightarrow> real list \<Rightarrow> real list \<Rightarrow> error + records" where
  "simulate solve junk J N dt k0 su sv U V =
     bind_r (set_row (np_empty (junk 0) N J) 0 U) (\<lambda>Ue.
     bind_r (set_row (np_empty (junk 1) N J) 0 V) (\<lambda>Ve.
     bind_r (set_row (np_empty (junk 2) N J) 0 U) (\<lambda>Ur.
     bind_r (set_row (np_empty (junk 3) N J) 0 V) (\<lambda>Vr.
     time_loop (loop_body solve dt k0 (A_u J su) (B_u J su) (A_v J sv) (B_v J sv)) [1..<N]
       \<lparr>U_record_ee = Ue, V_record_ee = Ve, U_record_rk = Ur, V_record_rk = Vr\<rparr>))))"

definition run :: "solver \<Rightarrow> (nat \<Rightarrow> nat \<Rightarrow> nat \<Rightarrow> real) \<Rightarrow> config \<Rightarrow> error + records" where
  "run solve junk c =
     bind_r (py_div (c_L c) (real (c_J c) - 1)) (\<lambda>dx.
     bind_r (py_div (c_T c) (real (c_N c) - 1)) (\<lambda>dt.
     bind_r (sigma_u (1 / 100 * c_D_v c) dt dx) (\<lambda>su.
     bind_r (sigma_v (c_D_v c) dt dx) (\<lambda>sv.
     bind_r (V_init (c_total_protein c) (c_J c) dx (U_init (c_J c) (c_no_high c))) (\<lambda>V.
     simulate solve junk (c_J c) (c_N c) dt (c_k0 c) su sv (U_init (c_J c) (c_no_high c)) V)))))"

text \<open>The scenario of the notebook.\<close>

definition notebook :: config where
  "notebook = \<lparr>c_L = 1, c_J = 200, c_T = 500, c_N = 1000, c_D_v = 10 / 100, c_k0 = 67 / 1000,
     c_total_protein = 226 / 100, c_no_high = 10\<rparr>"

text \<open>
  One time step in the words of the specification (section 4.3, steps 1 to 3): the reaction
  contribution \<open>r\<close> of the previous state, the right-hand sides \<open>B_U\<cdot>U + r\<close> and
  \<open>B_V\<cdot>V - r\<close>, and the two solves.
\<close>

definition time_step ::
  "solver \<Rightarrow> (real list \<Rightarrow> real list \<Rightarrow> real list option) \<Rightarrow> real list list \<Rightarrow> real list list
     \<Rightarrow> real list list \<Rightarrow> real list list \<Rightarrow> real list \<times> real list \<Rightarrow> error + real list \<times> real list" where
  "time_step solve react A_U B_U A_V B_V UV =
     bind_r (finite_or (react (fst UV) (snd UV))) (\<lambda>r.
     bind_r (solve A_U (np_add (mat_vec B_U (fst UV)) r)) (\<lambda>U_next.
     bind_r (solve A_V (np_subtract (mat_vec B_V (snd UV)) r)) (\<lambda>V_next.
     Inr (U_next, V_next))))"

subsection \<open>A tridiagonal solver\<close>

text \<open>
  Not part of the script: the Thomas algorithm, which section 9 of the specification allows
  in place of the dense solve. It serves below to show that the implicit systems have
  solutions, and as a concrete solver. \<open>thomas b c d rows\<close> solves the system whose first
  equation is \<open>b\<cdot>x\<^sub>0 + c\<cdot>x\<^sub>1 = d\<close> and whose further equations are the \<open>rows\<close>
  \<open>(a, b, c, d)\<close>, read as \<open>a\<cdot>x\<^sub>i\<^sub>-\<^sub>1 + b\<cdot>x\<^sub>i + c\<cdot>x\<^sub>i\<^sub>+\<^sub>1 = d\<close>; it fails on a zero pivot.
  \<open>tri_eqs p rows xs\<close> says that \<open>xs\<close> satisfies the \<open>rows\<close>, \<open>p\<close> being the unknown before
  the first. \<open>bands\<close> reads the three bands off a dense matrix.
\<close>

fun thomas :: "real \<Rightarrow> real \<Rightarrow> real \<Rightarrow> (real \<times> real \<times> real \<times> real) list \<Rightarrow> real list option" where
  "thomas b c d [] = (if b = 0 then None else Some [d / b])"
| "thomas b c d ((a', b', c', d') # rows) =
     (if b = 0 then None
      else case thomas (b' - a' * c / b) c' (d' - a' * d / b) rows of
             None \<Rightarrow> None
           | Some xs \<Rightarrow> Some ((d - c * hd xs) / b # xs))"

fun tri_eqs :: "real \<Rightarrow> (real \<times> real \<times> real \<times> real) list \<Rightarrow> real list \<Rightarrow> bool" where
  "tri_eqs p [] xs = (xs = [])"
| "tri_eqs p ((a, b, c, d) # rows) [] = False"
| "tri_eqs p ((a, b, c, d) # rows) (x # xs) =
     (a * p + b * x + c * (case xs of [] \<Rightarrow> 0 | y # _ \<Rightarrow> y) = d \<and> tri_eqs x rows xs)"

definition bands :: "real list list \<Rightarrow> real list \<Rightarrow> (real \<times> real \<times> real \<times> real) list" where
  "bands A b =
     map (\<lambda>i. (if i = 0 then 0 else A ! i ! (i - 1), A ! i ! i,
               if i + 1 < length A then A ! i ! (i + 1) else 0, b ! i)) [0..<length A]"

definition tridiagonal_solve :: solver where
  "tridiagonal_solve A b =
     (case bands A b of
        [] \<Rightarrow> Inr []
      | (a, b0, c, d) # rows \<Rightarrow>
          (case thomas b0 c d rows of None \<Rightarrow> Inl LinAlgError | Some x \<Rightarrow> Inr x))"

subsection \<open>Statements about a run\<close>

text \<open>
  The shape \<open>(N, J)\<close> of a record array; and the recurrence of a trajectory: every entry
  \<open>m\<close> with \<open>1 \<le> m < n\<close> is the time step of the specification applied to entry \<open>m - 1\<close>.
\<close>

definition has_shape :: "nat \<Rightarrow> nat \<Rightarrow> real list list \<Rightarrow> bool" where
  "has_shape N J rec \<longleftrightarrow> length rec = N \<and> list_all (\<lambda>row. length row = J) rec"

definition shaped :: "nat \<Rightarrow> nat \<Rightarrow> records \<Rightarrow> bool" where
  "shaped N J r \<longleftrightarrow> has_shape N J (U_record_ee r) \<and> has_shape N J (V_record_ee r) \<and>
     has_shape N J (U_record_rk r) \<and> has_shape N J (V_record_rk r)"

definition recurrence ::
  "solver \<Rightarrow> (real list \<Rightarrow> real list \<Rightarrow> real list option) \<Rightarrow> real list list \<Rightarrow> real list list
     \<Rightarrow> real list list \<Rightarrow> real list list \<Rightarrow> nat \<Rightarrow> real list list \<Rightarrow> real list list \<Rightarrow> bool" where
  "recurrence solve react A_U B_U A_V B_V n Us Vs \<longleftrightarrow>
     list_all (\<lambda>m. time_step solve react A_U B_U A_V B_V (Us ! (m - 1), Vs ! (m - 1)) = Inr (Us ! m, Vs ! m))
       [1..<n]"

text \<open>A reaction integrator that returns a vector of length \<open>J\<close> on all states of length \<open>J\<close>.\<close>

definition total_reaction :: "nat \<Rightarrow> (real list \<Rightarrow> real list \<Rightarrow> real list option) \<Rightarrow> bool" where
  "total_reaction J react \<longleftrightarrow>
     (\<forall>U V. length U = J \<and> length V = J \<longrightarrow> (\<exists>\<rho>. react U V = Some \<rho> \<and> length \<rho> = J))"

text \<open>The records when the loop starts: the four empty arrays with row 0 assigned.\<close>

definition initial_records :: "(nat \<Rightarrow> nat \<Rightarrow> nat \<Rightarrow> real) \<Rightarrow> nat \<Rightarrow> nat \<Rightarrow> real list \<Rightarrow> real list \<Rightarrow> records" where
  "initial_records junk N J U V =
     \<lparr>U_record_ee = (np_empty (junk 0) N J)[0 := U], V_record_ee = (np_empty (junk 1) N J)[0 := V],
      U_record_rk = (np_empty (junk 2) N J)[0 := U], V_record_rk = (np_empty (junk 3) N J)[0 := V]\<rparr>"

text \<open>Two states of the records with equal rows at the indices \<open>ms\<close>.\<close>

definition agree_on :: "nat list \<Rightarrow> records \<Rightarrow> records \<Rightarrow> bool" where
  "agree_on ms r r' \<longleftrightarrow>
     list_all (\<lambda>m. U_record_ee r ! m = U_record_ee r' ! m \<and> V_record_ee r ! m = V_record_ee r' ! m \<and>
                   U_record_rk r ! m = U_record_rk r' ! m \<and> V_record_rk r ! m = V_record_rk r' ! m) ms"

section \<open>Verification\<close>

subsection \<open>The reaction term\<close>

lemma np_multiply_self: "np_multiply U U = map (\<lambda>u. u * u) U"
  by (simp add: np_multiply_def zip_same_conv_map)

lemma denominators_ge_1: "d \<in> set (np_add_s 1 (np_multiply U U)) \<Longrightarrow> 1 \<le> d"
  by (auto simp: np_add_s_def np_multiply_self)

lemma np_divide_squares:
  "np_divide (np_multiply U U) (np_add_s 1 (np_multiply U U)) =
     Some (map (\<lambda>u. u\<^sup>2 / (1 + u\<^sup>2)) U)"
proof -
  have "0 \<notin> set (np_add_s 1 (np_multiply U U))"
    using denominators_ge_1 [of 0 U] by auto
  moreover have "map2 (/) (np_multiply U U) (np_add_s 1 (np_multiply U U)) =
      map (\<lambda>u. u\<^sup>2 / (1 + u\<^sup>2)) U"
    by (simp add: np_multiply_self np_add_s_def zip_map_map zip_same_conv_map power2_eq_square)
  ultimately show ?thesis by (simp add: np_divide_def)
qed

lemma rate_spec_code:
  "np_subtract (np_multiply V (np_add_s k0 (map (\<lambda>u. u\<^sup>2 / (1 + u\<^sup>2)) U))) U = rate_spec k0 U V"
proof (induction U arbitrary: V)
  case Nil
  then show ?case by (simp add: np_subtract_def np_multiply_def np_add_s_def rate_spec_def)
next
  case (Cons u U)
  then show ?case
    by (cases V) (simp_all add: np_subtract_def np_multiply_def np_add_s_def rate_spec_def)
qed

lemma f_vec_rate: "f_vec k0 U V = Some (rate_spec k0 U V)"
  by (simp add: f_vec_def np_divide_squares rate_spec_code)

lemma f_vec_ee_rate: "f_vec_ee dt k0 U V = Some (np_multiply_s dt (rate_spec k0 U V))"
  by (simp add: f_vec_ee_def np_divide_squares rate_spec_code)

lemma f_vec_rk_stages:
  "f_vec_rk dt k0 U V =
     (let k1 = rate_spec k0 U V;
          k2 = rate_spec k0 (np_add U (np_multiply_s (dt / 2) k1))
                            (np_subtract V (np_multiply_s (dt / 2) k1));
          k3 = rate_spec k0 (np_add U (np_multiply_s (dt / 2) k2))
                            (np_subtract V (np_multiply_s (dt / 2) k2));
          k4 = rate_spec k0 (np_add U (np_multiply_s dt k3))
                            (np_subtract V (np_multiply_s dt k3))
      in Some (np_multiply_s (dt / 6)
                (np_add (np_add (np_add k1 (np_multiply_s 2 k2)) (np_multiply_s 2 k3)) k4)))"
  by (simp add: f_vec_rk_def f_vec_rate Let_def)

lemma length_rate_spec [simp]: "length (rate_spec k0 U V) = min (length U) (length V)"
  by (simp add: rate_spec_def)

lemma length_np [simp]:
  "length (np_add xs ys) = min (length xs) (length ys)"
  "length (np_subtract xs ys) = min (length xs) (length ys)"
  "length (np_multiply_s a xs) = length xs"
  by (simp_all add: np_add_def np_subtract_def np_multiply_s_def)

lemma nth_np:
  "i < length xs \<Longrightarrow> i < length ys \<Longrightarrow> np_add xs ys ! i = xs ! i + ys ! i"
  "i < length xs \<Longrightarrow> i < length ys \<Longrightarrow> np_subtract xs ys ! i = xs ! i - ys ! i"
  "i < length xs \<Longrightarrow> np_multiply_s a xs ! i = a * xs ! i"
  "i < length U \<Longrightarrow> i < length V \<Longrightarrow>
     rate_spec k0 U V ! i = V ! i * (k0 + (U ! i)\<^sup>2 / (1 + (U ! i)\<^sup>2)) - U ! i"
  by (simp_all add: np_add_def np_subtract_def np_multiply_s_def rate_spec_def)

text \<open>
  Claim C3. On all input vectors \<open>U\<close>, \<open>V\<close> (so on every pair of length \<open>J\<close>) the
  Runge-Kutta variant returns, at each grid point with values \<open>u\<close>, \<open>v\<close>, the number
  \<open>dt/6 \<cdot> (k1 + 2\<cdot>k2 + 2\<cdot>k3 + k4)\<close>, where \<open>rate u v = v\<cdot>(k0 + u\<^sup>2/(1+u\<^sup>2)) - u\<close> and
  \<open>k1 = rate u v\<close>, \<open>k2 = rate (u + dt/2\<cdot>k1) (v - dt/2\<cdot>k1)\<close>,
  \<open>k3 = rate (u + dt/2\<cdot>k2) (v - dt/2\<cdot>k2)\<close>, \<open>k4 = rate (u + dt\<cdot>k3) (v - dt\<cdot>k3)\<close>; the rate
  function has no factor \<open>dt\<close>. The second conjunct is the same with the stages as vectors.
\<close>

theorem f_vec_rk_is_rk4:
  "f_vec_rk dt k0 U V =
     Some (map2 (\<lambda>u v.
       let k1 = v * (k0 + u\<^sup>2 / (1 + u\<^sup>2)) - u;
           u2 = u + dt / 2 * k1; v2 = v - dt / 2 * k1;
           k2 = v2 * (k0 + u2\<^sup>2 / (1 + u2\<^sup>2)) - u2;
           u3 = u + dt / 2 * k2; v3 = v - dt / 2 * k2;
           k3 = v3 * (k0 + u3\<^sup>2 / (1 + u3\<^sup>2)) - u3;
           u4 = u + dt * k3; v4 = v - dt * k3;
           k4 = v4 * (k0 + u4\<^sup>2 / (1 + u4\<^sup>2)) - u4
       in dt / 6 * (k1 + 2 * k2 + 2 * k3 + k4)) U V) \<and>
   f_vec_rk dt k0 U V =
     (let k1 = rate_spec k0 U V;
          k2 = rate_spec k0 (np_add U (np_multiply_s (dt / 2) k1))
                            (np_subtract V (np_multiply_s (dt / 2) k1));
          k3 = rate_spec k0 (np_add U (np_multiply_s (dt / 2) k2))
                            (np_subtract V (np_multiply_s (dt / 2) k2));
          k4 = rate_spec k0 (np_add U (np_multiply_s dt k3))
                            (np_subtract V (np_multiply_s dt k3))
      in Some (np_multiply_s (dt / 6)
                (np_add (np_add (np_add k1 (np_multiply_s 2 k2)) (np_multiply_s 2 k3)) k4)))"
proof
  show "f_vec_rk dt k0 U V =
     Some (map2 (\<lambda>u v.
       let k1 = v * (k0 + u\<^sup>2 / (1 + u\<^sup>2)) - u;
           u2 = u + dt / 2 * k1; v2 = v - dt / 2 * k1;
           k2 = v2 * (k0 + u2\<^sup>2 / (1 + u2\<^sup>2)) - u2;
           u3 = u + dt / 2 * k2; v3 = v - dt / 2 * k2;
           k3 = v3 * (k0 + u3\<^sup>2 / (1 + u3\<^sup>2)) - u3;
           u4 = u + dt * k3; v4 = v - dt * k3;
           k4 = v4 * (k0 + u4\<^sup>2 / (1 + u4\<^sup>2)) - u4
       in dt / 6 * (k1 + 2 * k2 + 2 * k3 + k4)) U V)"
    unfolding f_vec_rk_stages Let_def
    by (simp add: list_eq_iff_nth_eq nth_np)
qed (rule f_vec_rk_stages)

text \<open>
  Claim C4. On all input vectors the explicit variant returns, at each grid point,
  \<open>dt \<cdot> (v \<cdot> (k0 + u\<^sup>2/(1+u\<^sup>2)) - u)\<close>, from a single evaluation; this is \<open>dt\<close> times the
  unscaled rate function of the Runge-Kutta variant on the same input.
\<close>

theorem f_vec_ee_is_dt_rate:
  "f_vec_ee dt k0 U V = Some (map2 (\<lambda>u v. dt * (v * (k0 + u\<^sup>2 / (1 + u\<^sup>2)) - u)) U V) \<and>
   f_vec k0 U V = Some (rate_spec k0 U V) \<and>
   f_vec_ee dt k0 U V = Some (np_multiply_s dt (rate_spec k0 U V))"
  by (simp add: f_vec_ee_rate f_vec_rate np_multiply_s_def rate_spec_def map_zip_map split_def
      cong: map_cong)

text \<open>
  Claim C10. Every denominator \<open>1 + u\<^sup>2\<close> of the rate expression is at least 1, so the
  division is defined at every grid point: \<open>f_vec_ee\<close>, the stage function \<open>f_vec\<close> (on
  any stage input) and \<open>f_vec_rk\<close> return a vector on all real inputs.
\<close>

theorem reaction_total:
  "(\<forall>d \<in> set (np_add_s 1 (np_multiply U U)). 1 \<le> d) \<and>
   (\<exists>r. f_vec_ee dt k0 U V = Some r) \<and>
   (\<exists>r. f_vec k0 U V = Some r) \<and>
   (\<exists>r. f_vec_rk dt k0 U V = Some r)"
  by (simp add: denominators_ge_1 f_vec_ee_rate f_vec_rate f_vec_rk_stages Let_def)

theorem reaction_total_witness:
  "(1::real) \<le> 10 \<and> (\<exists>r. f_vec_ee (1 / 2) (1 / 10) [0, - 3] [3, 0] = Some r) \<and>
   (\<exists>r. f_vec_rk (1 / 2) (1 / 10) [0, - 3] [3, 0] = Some r)"
  using reaction_total [of "[0, - 3]" "1 / 2" "1 / 10" "[3, 0]"]
  by (simp add: np_add_s_def np_multiply_def)

subsection \<open>The diffusion operators\<close>

lemma mat_add_matrix_of:
  "mat_add (matrix_of n e1) (matrix_of n e2) = matrix_of n (\<lambda>i j. e1 i j + e2 i j)"
  by (simp add: mat_add_def matrix_of_def np_add_def zip_map_map zip_same_conv_map)

lemma diagflat_matrix_of:
  "diagflat v k =
     matrix_of (length v + nat \<bar>k\<bar>) (\<lambda>i j. if int j = int i + k then v ! min i j else 0)"
  by (simp add: diagflat_def matrix_of_def Let_def)

lemma matrix_of_cong:
  "(\<And>i j. i < n \<Longrightarrow> j < n \<Longrightarrow> e1 i j = e2 i j) \<Longrightarrow> matrix_of n e1 = matrix_of n e2"
  by (simp add: matrix_of_def)

lemma tridiag_matrix_of:
  assumes "2 \<le> J"
  shows "mat_add (mat_add (diagflat (replicate (J - 1) c) (- 1))
                          (diagflat ([de] @ replicate (J - 2) dm @ [de]) 0))
                 (diagflat (replicate (J - 1) c) 1)
       = matrix_of J (\<lambda>i j. if i = j then (if i = 0 \<or> i = J - 1 then de else dm)
                             else if i = j + 1 \<or> j = i + 1 then c else 0)"
proof -
  have l1: "length (replicate (J - 1) c) + nat \<bar>- 1::int\<bar> = J" using assms by simp
  have l2: "length ([de] @ replicate (J - 2) dm @ [de]) + nat \<bar>0::int\<bar> = J" using assms by simp
  have l3: "length (replicate (J - 1) c) + nat \<bar>1::int\<bar> = J" using assms by simp
  show ?thesis
    unfolding diagflat_matrix_of l1 l2 l3 mat_add_matrix_of
    by (rule matrix_of_cong) (use assms in \<open>auto simp: nth_append nth_Cons' min_def\<close>)
qed

lemma A_u_matrix_of: "2 \<le> J \<Longrightarrow> A_u J s = matrix_of J (A_spec J s)"
  unfolding A_u_def A_spec_def by (rule tridiag_matrix_of)

lemma B_u_matrix_of: "2 \<le> J \<Longrightarrow> B_u J s = matrix_of J (B_spec J s)"
  unfolding B_u_def B_spec_def by (rule tridiag_matrix_of)

lemma A_v_eq_A_u: "A_v J s = A_u J s"
  by (simp add: A_v_def A_u_def)

lemma B_v_eq_B_u: "B_v J s = B_u J s"
  by (simp add: B_v_def B_u_def)

text \<open>
  Claim C2. For a species with diffusion coefficient \<open>D\<close> the script computes
  \<open>sigma = D\<cdot>dt/(2\<cdot>dx\<^sup>2)\<close> (for \<open>dx \<noteq> 0\<close>), and for \<open>J \<ge> 2\<close> its operators are the
  \<open>J \<times> J\<close> tridiagonal matrices of the specification: \<open>A\<close> with \<open>1 + 2\<sigma>\<close> on the interior
  diagonal, \<open>1 + \<sigma>\<close> at both ends and \<open>-\<sigma>\<close> off the diagonal, \<open>B\<close> with \<open>1 - 2\<sigma>\<close>,
  \<open>1 - \<sigma>\<close> and \<open>+\<sigma>\<close>; this holds for both species.
\<close>

theorem operators_tridiagonal:
  assumes "2 \<le> J" and "dx \<noteq> 0"
  shows "sigma_u D dt dx = Inr (D * dt / (2 * dx\<^sup>2)) \<and>
         sigma_v D dt dx = Inr (D * dt / (2 * dx\<^sup>2)) \<and>
         A_u J s = matrix_of J (A_spec J s) \<and> B_u J s = matrix_of J (B_spec J s) \<and>
         A_v J s = matrix_of J (A_spec J s) \<and> B_v J s = matrix_of J (B_spec J s)"
  using assms
  by (simp add: sigma_u_def sigma_v_def py_div_def power2_eq_square A_u_matrix_of B_u_matrix_of
      A_v_eq_A_u B_v_eq_B_u)

theorem operators_tridiagonal_witness:
  "sigma_u 2 3 (1 / 2) = Inr 12 \<and>
   A_u 3 12 = [[13, - 12, 0], [- 12, 25, - 12], [0, - 12, 13]] \<and>
   B_v 3 12 = [[- 11, 12, 0], [12, - 23, 12], [0, 12, - 11]]"
  using operators_tridiagonal [of 3 "1 / 2" 2 3 12]
  by (simp add: matrix_of_def A_spec_def B_spec_def upt_rec power2_eq_square)

subsection \<open>The time loop\<close>

lemma has_shape_nth: "has_shape N J rec \<Longrightarrow> i < N \<Longrightarrow> length (rec ! i) = J"
  by (auto simp: has_shape_def list_all_length)

lemma has_shape_update: "has_shape N J rec \<Longrightarrow> length x = J \<Longrightarrow> has_shape N J (rec[i := x])"
  using set_update_subset_insert [of rec i x] by (auto simp: has_shape_def list_all_iff)

lemma has_shape_np_empty: "has_shape N J (np_empty junk N J)"
  by (simp add: has_shape_def np_empty_def list_all_length)

lemma set_row_ok:
  "has_shape N J rec \<Longrightarrow> ti < N \<Longrightarrow> length x = J \<Longrightarrow> set_row rec ti x = Inr (rec[ti := x])"
  by (simp add: set_row_def has_shape_def list_all_length)

lemma length_matrix_of [simp]: "length (matrix_of J e) = J"
  by (simp add: matrix_of_def)

lemma length_mat_vec [simp]: "length (mat_vec B x) = length B"
  by (simp add: mat_vec_def)

lemma dot_matrix_of: "length x = J \<Longrightarrow> dot (matrix_of J e) x = Inr (mat_vec (matrix_of J e) x)"
  by (simp add: dot_def matrix_of_def list_all_iff)

lemma f_vec_ee_length:
  "length U = J \<Longrightarrow> length V = J \<Longrightarrow> \<exists>r. f_vec_ee dt k0 U V = Some r \<and> length r = J"
  by (simp add: f_vec_ee_rate)

lemma f_vec_rk_length:
  "length U = J \<Longrightarrow> length V = J \<Longrightarrow> \<exists>r. f_vec_rk dt k0 U V = Some r \<and> length r = J"
  by (simp add: f_vec_rk_stages Let_def)

lemma exact_solverD:
  assumes "exact_solver solve A" "length b = length A" "solve A b = Inr x"
  shows "length x = length A" "mat_vec A x = b"
  using assms unfolding exact_solver_def by (auto split: sum.splits)

lemma bind_r_simps [simp]: "bind_r (Inr x) k = k x" "bind_r (Inl e) k = Inl e"
  by (simp_all add: bind_r_def)

lemma bind_r_Inr_iff: "bind_r m k = Inr y \<longleftrightarrow> (\<exists>x. m = Inr x \<and> k x = Inr y)"
  by (cases m) simp_all

text \<open>One assignment of the loop body, whichever the record and the variant.\<close>

lemma assignment:
  assumes B: "B = matrix_of J e" and A: "length A = J" and ex: "exact_solver solve A"
    and X: "length X = J" and rho: "react = Some \<rho>" "length \<rho> = J"
    and opl: "length (h (mat_vec B X) \<rho>) = J"
    and rec: "has_shape N J rec" "ti < N"
  shows "bind_r (dot B X) (\<lambda>d. bind_r (finite_or react) (\<lambda>fe. bind_r (solve A (h d fe)) (\<lambda>x.
           bind_r (set_row rec ti x) (\<lambda>rows. Inr (upd rows))))) =
         bind_r (solve A (h (mat_vec B X) \<rho>)) (\<lambda>x. Inr (upd (rec[ti := x])))"
proof (cases "solve A (h (mat_vec B X) \<rho>)")
  case (Inl e)
  then show ?thesis using B X rho by (simp add: dot_matrix_of finite_or_def)
next
  case (Inr x)
  then have "length x = J"
    using exact_solverD(1) [OF ex _ Inr] opl A by simp
  then show ?thesis
    using Inr B X rho rec by (simp add: dot_matrix_of finite_or_def set_row_ok)
qed


lemma length_A_u [simp]: "2 \<le> J \<Longrightarrow> length (A_u J s) = J"
  by (simp add: A_u_matrix_of)

lemma length_B_u [simp]: "2 \<le> J \<Longrightarrow> length (B_u J s) = J"
  by (simp add: B_u_matrix_of)

lemma update_U_ee_eq:
  assumes "2 \<le> J" "exact_solver solve (A_u J su)" "shaped N J r" "1 \<le> ti" "ti < N"
    and "f_vec_ee dt k0 (U_record_ee r ! (ti - 1)) (V_record_ee r ! (ti - 1)) = Some \<rho>"
  shows "update_U_ee solve dt k0 (A_u J su) (B_u J su) ti r =
     bind_r (solve (A_u J su) (np_add (mat_vec (B_u J su) (U_record_ee r ! (ti - 1))) \<rho>))
       (\<lambda>x. Inr (r\<lparr>U_record_ee := (U_record_ee r)[ti := x]\<rparr>))"
proof -
  have l: "length (U_record_ee r ! (ti - 1)) = J" "length (V_record_ee r ! (ti - 1)) = J"
    using assms by (auto simp: shaped_def intro!: has_shape_nth)
  then have "length \<rho> = J"
    using f_vec_ee_length [of _ J _ dt k0] assms(6) by fastforce
  then show ?thesis
    unfolding update_U_ee_def
    using assms l
    by (intro assignment [where J = J and N = N and e = "B_spec J su"])
       (simp_all add: B_u_matrix_of shaped_def)
qed


lemma update_V_ee_eq:
  assumes "2 \<le> J" "exact_solver solve (A_v J sv)" "shaped N J r" "1 \<le> ti" "ti < N"
    and "f_vec_ee dt k0 (U_record_ee r ! (ti - 1)) (V_record_ee r ! (ti - 1)) = Some \<rho>"
  shows "update_V_ee solve dt k0 (A_v J sv) (B_v J sv) ti r =
     bind_r (solve (A_v J sv) (np_subtract (mat_vec (B_v J sv) (V_record_ee r ! (ti - 1))) \<rho>))
       (\<lambda>x. Inr (r\<lparr>V_record_ee := (V_record_ee r)[ti := x]\<rparr>))"
proof -
  have l: "length (U_record_ee r ! (ti - 1)) = J" "length (V_record_ee r ! (ti - 1)) = J"
    using assms by (auto simp: shaped_def intro!: has_shape_nth)
  then have "length \<rho> = J"
    using f_vec_ee_length [of _ J _ dt k0] assms(6) by fastforce
  then show ?thesis
    unfolding update_V_ee_def
    using assms l
    by (intro assignment [where J = J and N = N and e = "B_spec J sv"])
       (simp_all add: B_u_matrix_of A_v_eq_A_u B_v_eq_B_u shaped_def)
qed

lemma update_U_rk_eq:
  assumes "2 \<le> J" "exact_solver solve (A_u J su)" "shaped N J r" "1 \<le> ti" "ti < N"
    and "f_vec_rk dt k0 (U_record_rk r ! (ti - 1)) (V_record_rk r ! (ti - 1)) = Some \<rho>"
  shows "update_U_rk solve dt k0 (A_u J su) (B_u J su) ti r =
     bind_r (solve (A_u J su) (np_add (mat_vec (B_u J su) (U_record_rk r ! (ti - 1))) \<rho>))
       (\<lambda>x. Inr (r\<lparr>U_record_rk := (U_record_rk r)[ti := x]\<rparr>))"
proof -
  have l: "length (U_record_rk r ! (ti - 1)) = J" "length (V_record_rk r ! (ti - 1)) = J"
    using assms by (auto simp: shaped_def intro!: has_shape_nth)
  then have "length \<rho> = J"
    using f_vec_rk_length [of _ J _ dt k0] assms(6) by fastforce
  then show ?thesis
    unfolding update_U_rk_def
    using assms l
    by (intro assignment [where J = J and N = N and e = "B_spec J su"])
       (simp_all add: B_u_matrix_of shaped_def)
qed

lemma update_V_rk_eq:
  assumes "2 \<le> J" "exact_solver solve (A_v J sv)" "shaped N J r" "1 \<le> ti" "ti < N"
    and "f_vec_rk dt k0 (U_record_rk r ! (ti - 1)) (V_record_rk r ! (ti - 1)) = Some \<rho>"
  shows "update_V_rk solve dt k0 (A_v J sv) (B_v J sv) ti r =
     bind_r (solve (A_v J sv) (np_subtract (mat_vec (B_v J sv) (V_record_rk r ! (ti - 1))) \<rho>))
       (\<lambda>x. Inr (r\<lparr>V_record_rk := (V_record_rk r)[ti := x]\<rparr>))"
proof -
  have l: "length (U_record_rk r ! (ti - 1)) = J" "length (V_record_rk r ! (ti - 1)) = J"
    using assms by (auto simp: shaped_def intro!: has_shape_nth)
  then have "length \<rho> = J"
    using f_vec_rk_length [of _ J _ dt k0] assms(6) by fastforce
  then show ?thesis
    unfolding update_V_rk_def
    using assms l
    by (intro assignment [where J = J and N = N and e = "B_spec J sv"])
       (simp_all add: B_u_matrix_of A_v_eq_A_u B_v_eq_B_u shaped_def)
qed

lemma time_step_lengths:
  assumes "2 \<le> J" "exact_solver solve (A_u J su)" "exact_solver solve (A_v J sv)"
    and "length U = J" "length V = J" "react U V = Some \<rho>" "length \<rho> = J"
    and "time_step solve react (A_u J su) (B_u J su) (A_v J sv) (B_v J sv) (U, V) = Inr (x, y)"
  shows "length x = J \<and> length y = J \<and>
     mat_vec (A_u J su) x = np_add (mat_vec (B_u J su) U) \<rho> \<and>
     mat_vec (A_v J sv) y = np_subtract (mat_vec (B_v J sv) V) \<rho>"
proof -
  from assms(8) have sx: "solve (A_u J su) (np_add (mat_vec (B_u J su) U) \<rho>) = Inr x"
    and sy: "solve (A_v J sv) (np_subtract (mat_vec (B_v J sv) V) \<rho>) = Inr y"
    using assms(6) by (auto simp: time_step_def finite_or_def bind_r_Inr_iff)
  show ?thesis
    using exact_solverD [OF assms(2) _ sx] exact_solverD [OF assms(3) _ sy] assms(1,4,5,7)
    by (simp add: A_v_eq_A_u B_v_eq_B_u)
qed

lemma shaped_update:
  assumes "shaped N J r" "length x = J"
  shows "shaped N J (r\<lparr>U_record_ee := (U_record_ee r)[ti := x]\<rparr>)"
    "shaped N J (r\<lparr>V_record_ee := (V_record_ee r)[ti := x]\<rparr>)"
    "shaped N J (r\<lparr>U_record_rk := (U_record_rk r)[ti := x]\<rparr>)"
    "shaped N J (r\<lparr>V_record_rk := (V_record_rk r)[ti := x]\<rparr>)"
  using assms by (simp_all add: shaped_def has_shape_update)

lemma time_step_Some:
  "react U V = Some \<rho> \<Longrightarrow>
   time_step solve react A_U B_U A_V B_V (U, V) =
     bind_r (solve A_U (np_add (mat_vec B_U U) \<rho>)) (\<lambda>x.
     bind_r (solve A_V (np_subtract (mat_vec B_V V) \<rho>)) (\<lambda>y. Inr (x, y)))"
  by (simp add: time_step_def finite_or_def)

lemma ee_pair:
  assumes J: "2 \<le> J" and eu: "exact_solver solve (A_u J su)" and ev: "exact_solver solve (A_v J sv)"
    and sh: "shaped N J r" and ti: "1 \<le> ti" "ti < N"
  shows "bind_r (update_U_ee solve dt k0 (A_u J su) (B_u J su) ti r)
           (update_V_ee solve dt k0 (A_v J sv) (B_v J sv) ti) =
         bind_r (time_step solve (f_vec_ee dt k0) (A_u J su) (B_u J su) (A_v J sv) (B_v J sv)
                   (U_record_ee r ! (ti - 1), V_record_ee r ! (ti - 1)))
           (\<lambda>p. Inr (r\<lparr>U_record_ee := (U_record_ee r)[ti := fst p],
                       V_record_ee := (V_record_ee r)[ti := snd p]\<rparr>))"
proof -
  let ?U = "U_record_ee r ! (ti - 1)" and ?V = "V_record_ee r ! (ti - 1)"
  have l: "length ?U = J" "length ?V = J"
    using sh ti by (auto simp: shaped_def intro!: has_shape_nth)
  then obtain \<rho> where rho: "f_vec_ee dt k0 ?U ?V = Some \<rho>" "length \<rho> = J"
    using f_vec_ee_length by blast
  note u1 = update_U_ee_eq [OF J eu sh ti rho(1)]
  note ts = time_step_Some [of "f_vec_ee dt k0" ?U ?V \<rho>, OF rho(1)]
  show ?thesis
  proof (cases "solve (A_u J su) (np_add (mat_vec (B_u J su) ?U) \<rho>)")
    case (Inl e)
    show ?thesis unfolding u1 ts Inl by simp
  next
    case (Inr x)
    have lx: "length x = J"
      using exact_solverD(1) [OF eu _ Inr] J l rho by simp
    let ?r1 = "r\<lparr>U_record_ee := (U_record_ee r)[ti := x]\<rparr>"
    have sh1: "shaped N J ?r1" using sh lx by (rule shaped_update)
    have rd: "U_record_ee ?r1 ! (ti - 1) = ?U" "V_record_ee ?r1 ! (ti - 1) = ?V"
      using ti by simp_all
    have rho1: "f_vec_ee dt k0 (U_record_ee ?r1 ! (ti - 1)) (V_record_ee ?r1 ! (ti - 1)) = Some \<rho>"
      unfolding rd by (rule rho(1))
    note v1 = update_V_ee_eq [OF J ev sh1 ti rho1, unfolded rd]
    show ?thesis
      unfolding u1 ts Inr bind_r_simps v1
      by (cases "solve (A_v J sv) (np_subtract (mat_vec (B_v J sv) ?V) \<rho>)") simp_all
  qed
qed

lemma rk_pair:
  assumes J: "2 \<le> J" and eu: "exact_solver solve (A_u J su)" and ev: "exact_solver solve (A_v J sv)"
    and sh: "shaped N J r" and ti: "1 \<le> ti" "ti < N"
  shows "bind_r (update_U_rk solve dt k0 (A_u J su) (B_u J su) ti r)
           (update_V_rk solve dt k0 (A_v J sv) (B_v J sv) ti) =
         bind_r (time_step solve (f_vec_rk dt k0) (A_u J su) (B_u J su) (A_v J sv) (B_v J sv)
                   (U_record_rk r ! (ti - 1), V_record_rk r ! (ti - 1)))
           (\<lambda>p. Inr (r\<lparr>U_record_rk := (U_record_rk r)[ti := fst p],
                       V_record_rk := (V_record_rk r)[ti := snd p]\<rparr>))"
proof -
  let ?U = "U_record_rk r ! (ti - 1)" and ?V = "V_record_rk r ! (ti - 1)"
  have l: "length ?U = J" "length ?V = J"
    using sh ti by (auto simp: shaped_def intro!: has_shape_nth)
  then obtain \<rho> where rho: "f_vec_rk dt k0 ?U ?V = Some \<rho>" "length \<rho> = J"
    using f_vec_rk_length by blast
  note u1 = update_U_rk_eq [OF J eu sh ti rho(1)]
  note ts = time_step_Some [of "f_vec_rk dt k0" ?U ?V \<rho>, OF rho(1)]
  show ?thesis
  proof (cases "solve (A_u J su) (np_add (mat_vec (B_u J su) ?U) \<rho>)")
    case (Inl e)
    show ?thesis unfolding u1 ts Inl by simp
  next
    case (Inr x)
    have lx: "length x = J"
      using exact_solverD(1) [OF eu _ Inr] J l rho by simp
    let ?r1 = "r\<lparr>U_record_rk := (U_record_rk r)[ti := x]\<rparr>"
    have sh1: "shaped N J ?r1" using sh lx by (rule shaped_update)
    have rd: "U_record_rk ?r1 ! (ti - 1) = ?U" "V_record_rk ?r1 ! (ti - 1) = ?V"
      using ti by simp_all
    have rho1: "f_vec_rk dt k0 (U_record_rk ?r1 ! (ti - 1)) (V_record_rk ?r1 ! (ti - 1)) = Some \<rho>"
      unfolding rd by (rule rho(1))
    note v1 = update_V_rk_eq [OF J ev sh1 ti rho1, unfolded rd]
    show ?thesis
      unfolding u1 ts Inr bind_r_simps v1
      by (cases "solve (A_v J sv) (np_subtract (mat_vec (B_v J sv) ?V) \<rho>)") simp_all
  qed
qed


lemma bind_r_assoc: "bind_r (bind_r m k1) k2 = bind_r m (\<lambda>x. bind_r (k1 x) k2)"
  by (cases m) simp_all

lemma loop_body_eq:
  assumes J: "2 \<le> J" and eu: "exact_solver solve (A_u J su)" and ev: "exact_solver solve (A_v J sv)"
    and sh: "shaped N J r" and ti: "1 \<le> ti" "ti < N"
  shows "loop_body solve dt k0 (A_u J su) (B_u J su) (A_v J sv) (B_v J sv) ti r =
     bind_r (time_step solve (f_vec_ee dt k0) (A_u J su) (B_u J su) (A_v J sv) (B_v J sv)
               (U_record_ee r ! (ti - 1), V_record_ee r ! (ti - 1))) (\<lambda>p.
     bind_r (time_step solve (f_vec_rk dt k0) (A_u J su) (B_u J su) (A_v J sv) (B_v J sv)
               (U_record_rk r ! (ti - 1), V_record_rk r ! (ti - 1))) (\<lambda>q.
     Inr \<lparr>U_record_ee = (U_record_ee r)[ti := fst p], V_record_ee = (V_record_ee r)[ti := snd p],
          U_record_rk = (U_record_rk r)[ti := fst q], V_record_rk = (V_record_rk r)[ti := snd q]\<rparr>))"
proof -
  let ?ee = "time_step solve (f_vec_ee dt k0) (A_u J su) (B_u J su) (A_v J sv) (B_v J sv)
               (U_record_ee r ! (ti - 1), V_record_ee r ! (ti - 1))"
  have split: "loop_body solve dt k0 (A_u J su) (B_u J su) (A_v J sv) (B_v J sv) ti r =
      bind_r (bind_r (update_U_ee solve dt k0 (A_u J su) (B_u J su) ti r)
                     (update_V_ee solve dt k0 (A_v J sv) (B_v J sv) ti))
        (\<lambda>r2. bind_r (update_U_rk solve dt k0 (A_u J su) (B_u J su) ti r2)
                      (update_V_rk solve dt k0 (A_v J sv) (B_v J sv) ti))"
    by (simp add: loop_body_def bind_r_assoc)
  have l: "length (U_record_ee r ! (ti - 1)) = J" "length (V_record_ee r ! (ti - 1)) = J"
    using sh ti by (auto simp: shaped_def intro!: has_shape_nth)
  then obtain \<rho> where rho: "f_vec_ee dt k0 (U_record_ee r ! (ti - 1)) (V_record_ee r ! (ti - 1)) = Some \<rho>"
      "length \<rho> = J"
    using f_vec_ee_length by blast
  show ?thesis
  proof (cases ?ee)
    case (Inl e)
    show ?thesis unfolding split ee_pair [OF J eu ev sh ti] Inl by simp
  next
    case (Inr p)
    obtain x y where p: "p = (x, y)" by (cases p)
    have lxy: "length x = J" "length y = J"
      using time_step_lengths [where react = "f_vec_ee dt k0", OF J eu ev l rho Inr [unfolded p]] by simp_all
    let ?r2 = "r\<lparr>U_record_ee := (U_record_ee r)[ti := x], V_record_ee := (V_record_ee r)[ti := y]\<rparr>"
    have sh2: "shaped N J ?r2"
      using sh lxy by (simp add: shaped_def has_shape_update)
    show ?thesis
      unfolding split ee_pair [OF J eu ev sh ti] Inr bind_r_simps p fst_conv snd_conv
        rk_pair [OF J eu ev sh2 ti]
      by (cases r) simp
  qed
qed

lemma time_loop_snoc:
  "time_loop body (ts @ [t]) r = bind_r (time_loop body ts r) (body t)"
proof (induction ts arbitrary: r)
  case Nil
  then show ?case by (cases "body t r") simp_all
next
  case (Cons a ts)
  then show ?case by (cases "body a r") simp_all
qed

lemma recurrence_iff:
  "recurrence solve react A_U B_U A_V B_V n Us Vs \<longleftrightarrow>
     (\<forall>m. 1 \<le> m \<and> m < n \<longrightarrow>
        time_step solve react A_U B_U A_V B_V (Us ! (m - 1), Vs ! (m - 1)) = Inr (Us ! m, Vs ! m))"
  by (auto simp: recurrence_def list_all_iff)

lemma recurrence_Suc:
  assumes "recurrence solve react A_U B_U A_V B_V n Us Vs" "1 \<le> n" "n < length Us" "n < length Vs"
    and "time_step solve react A_U B_U A_V B_V (Us ! (n - 1), Vs ! (n - 1)) = Inr p"
  shows "recurrence solve react A_U B_U A_V B_V (Suc n) (Us[n := fst p]) (Vs[n := snd p])"
  unfolding recurrence_iff
proof (intro allI impI)
  fix m assume m: "1 \<le> m \<and> m < Suc n"
  show "time_step solve react A_U B_U A_V B_V (Us[n := fst p] ! (m - 1), Vs[n := snd p] ! (m - 1)) =
        Inr (Us[n := fst p] ! m, Vs[n := snd p] ! m)"
  proof (cases "m = n")
    case True
    then show ?thesis using assms by simp
  next
    case False
    then have "m < n" "m - 1 \<noteq> n" using m by auto
    then show ?thesis
      using assms(1) m False by (simp add: recurrence_iff)
  qed
qed

lemma loop_invariant:
  assumes J: "2 \<le> J" and eu: "exact_solver solve (A_u J su)" and ev: "exact_solver solve (A_v J sv)"
    and sh: "shaped N J r0" and n: "n \<le> N"
    and run: "time_loop (loop_body solve dt k0 (A_u J su) (B_u J su) (A_v J sv) (B_v J sv)) [1..<n] r0 = Inr r"
  shows "shaped N J r \<and>
     recurrence solve (f_vec_ee dt k0) (A_u J su) (B_u J su) (A_v J sv) (B_v J sv) n
       (U_record_ee r) (V_record_ee r) \<and>
     recurrence solve (f_vec_rk dt k0) (A_u J su) (B_u J su) (A_v J sv) (B_v J sv) n
       (U_record_rk r) (V_record_rk r) \<and>
     U_record_ee r ! 0 = U_record_ee r0 ! 0 \<and> V_record_ee r ! 0 = V_record_ee r0 ! 0 \<and>
     U_record_rk r ! 0 = U_record_rk r0 ! 0 \<and> V_record_rk r ! 0 = V_record_rk r0 ! 0"
  using n run
proof (induction n arbitrary: r)
  case 0
  then show ?case using sh by (simp add: recurrence_iff)
next
  case (Suc n)
  show ?case
  proof (cases "n = 0")
    case True
    then show ?thesis using Suc.prems sh by (simp add: recurrence_iff)
  next
    case False
    then have n1: "1 \<le> n" "n < N" using Suc.prems by auto
    have "[1..<Suc n] = [1..<n] @ [n]" using n1 by simp
    then obtain rm where rm: "time_loop (loop_body solve dt k0 (A_u J su) (B_u J su) (A_v J sv) (B_v J sv)) [1..<n] r0 = Inr rm"
      and last: "loop_body solve dt k0 (A_u J su) (B_u J su) (A_v J sv) (B_v J sv) n rm = Inr r"
      using Suc.prems(2) by (auto simp: time_loop_snoc bind_r_Inr_iff)
    have IH: "shaped N J rm"
      "recurrence solve (f_vec_ee dt k0) (A_u J su) (B_u J su) (A_v J sv) (B_v J sv) n (U_record_ee rm) (V_record_ee rm)"
      "recurrence solve (f_vec_rk dt k0) (A_u J su) (B_u J su) (A_v J sv) (B_v J sv) n (U_record_rk rm) (V_record_rk rm)"
      "U_record_ee rm ! 0 = U_record_ee r0 ! 0" "V_record_ee rm ! 0 = V_record_ee r0 ! 0"
      "U_record_rk rm ! 0 = U_record_rk r0 ! 0" "V_record_rk rm ! 0 = V_record_rk r0 ! 0"
      using Suc.IH [OF _ rm] n1 by simp_all
    let ?Ue = "U_record_ee rm ! (n - 1)" and ?Ve = "V_record_ee rm ! (n - 1)"
    let ?Ur = "U_record_rk rm ! (n - 1)" and ?Vr = "V_record_rk rm ! (n - 1)"
    from last obtain p q where
      p: "time_step solve (f_vec_ee dt k0) (A_u J su) (B_u J su) (A_v J sv) (B_v J sv) (?Ue, ?Ve) = Inr p"
      and q: "time_step solve (f_vec_rk dt k0) (A_u J su) (B_u J su) (A_v J sv) (B_v J sv) (?Ur, ?Vr) = Inr q"
      and r: "r = \<lparr>U_record_ee = (U_record_ee rm)[n := fst p], V_record_ee = (V_record_ee rm)[n := snd p],
          U_record_rk = (U_record_rk rm)[n := fst q], V_record_rk = (V_record_rk rm)[n := snd q]\<rparr>"
      unfolding loop_body_eq [OF J eu ev IH(1) n1] by (auto simp: bind_r_Inr_iff)
    have l: "length ?Ue = J" "length ?Ve = J" "length ?Ur = J" "length ?Vr = J"
      using IH(1) n1 by (auto simp: shaped_def intro!: has_shape_nth)
    obtain \<rho>e where rhoe: "f_vec_ee dt k0 ?Ue ?Ve = Some \<rho>e" "length \<rho>e = J"
      using f_vec_ee_length l by blast
    obtain \<rho>r where rhor: "f_vec_rk dt k0 ?Ur ?Vr = Some \<rho>r" "length \<rho>r = J"
      using f_vec_rk_length l by blast
    have lp: "length (fst p) = J" "length (snd p) = J"
      using time_step_lengths [where react = "f_vec_ee dt k0", OF J eu ev l(1,2) rhoe, of "fst p" "snd p"] p by simp_all
    have lq: "length (fst q) = J" "length (snd q) = J"
      using time_step_lengths [where react = "f_vec_rk dt k0", OF J eu ev l(3,4) rhor, of "fst q" "snd q"] q by simp_all
    have lens: "n < length (U_record_ee rm)" "n < length (V_record_ee rm)"
      "n < length (U_record_rk rm)" "n < length (V_record_rk rm)"
      using IH(1) n1 by (simp_all add: shaped_def has_shape_def)
    have "shaped N J r"
      using IH(1) lp lq unfolding r by (simp add: shaped_def has_shape_update)
    moreover have "recurrence solve (f_vec_ee dt k0) (A_u J su) (B_u J su) (A_v J sv) (B_v J sv) (Suc n)
       (U_record_ee r) (V_record_ee r)"
      unfolding r using recurrence_Suc [OF IH(2) n1(1) lens(1,2) p] by simp
    moreover have "recurrence solve (f_vec_rk dt k0) (A_u J su) (B_u J su) (A_v J sv) (B_v J sv) (Suc n)
       (U_record_rk r) (V_record_rk r)"
      unfolding r using recurrence_Suc [OF IH(3) n1(1) lens(3,4) q] by simp
    ultimately show ?thesis
      using IH(4-7) False unfolding r by simp
  qed
qed

subsection \<open>Linear algebra of the operators\<close>

lemma thomas_sound:
  "thomas b c d rows = Some xs \<Longrightarrow> tri_eqs p ((0, b, c, d) # rows) xs"
proof (induction rows arbitrary: b c d xs p)
  case Nil
  then show ?case by (auto split: if_splits)
next
  case (Cons r rows)
  obtain a' b' c' d' where r: "r = (a', b', c', d')" by (cases r)
  from Cons.prems r have b: "b \<noteq> 0" by (auto split: if_splits)
  from Cons.prems r b obtain ys where
    ys: "thomas (b' - a' * c / b) c' (d' - a' * d / b) rows = Some ys"
    and xs: "xs = (d - c * hd ys) / b # ys"
    by (auto split: option.splits)
  have IH: "tri_eqs ((d - c * hd ys) / b) ((0, b' - a' * c / b, c', d' - a' * d / b) # rows) ys"
    by (rule Cons.IH [OF ys])
  then obtain y ys' where y: "ys = y # ys'" by (cases ys) auto
  from IH y have e: "(b' - a' * c / b) * y + c' * (case ys' of [] \<Rightarrow> 0 | z # _ \<Rightarrow> z) = d' - a' * d / b"
    and rest: "tri_eqs y rows ys'" by auto
  have "a' * ((d - c * y) / b) + b' * y + c' * (case ys' of [] \<Rightarrow> 0 | z # _ \<Rightarrow> z) = d'"
    using e b by (simp add: field_simps)
  then show ?case
    using b rest by (simp add: r xs y)
qed

lemma thomas_succeeds:
  "\<bar>c\<bar> < \<bar>b\<bar> \<Longrightarrow> list_all (\<lambda>(a', b', c', d'). \<bar>a'\<bar> + \<bar>c'\<bar> < \<bar>b'\<bar>) rows \<Longrightarrow>
   \<exists>xs. thomas b c d rows = Some xs"
proof (induction rows arbitrary: b c d)
  case Nil
  then show ?case by auto
next
  case (Cons r rows)
  obtain a' b' c' d' where r: "r = (a', b', c', d')" by (cases r)
  have b: "b \<noteq> 0" using Cons.prems(1) by auto
  have dom: "\<bar>a'\<bar> + \<bar>c'\<bar> < \<bar>b'\<bar>" using Cons.prems(2) r by simp
  have "\<bar>a' * c / b\<bar> = \<bar>a'\<bar> * (\<bar>c\<bar> / \<bar>b\<bar>)" by (simp add: abs_mult)
  also have "\<dots> \<le> \<bar>a'\<bar> * 1"
    using Cons.prems(1) b by (intro mult_left_mono) auto
  finally have "\<bar>a' * c / b\<bar> \<le> \<bar>a'\<bar>" by simp
  then have "\<bar>c'\<bar> < \<bar>b' - a' * c / b\<bar>" using dom by linarith
  then obtain ys where "thomas (b' - a' * c / b) c' (d' - a' * d / b) rows = Some ys"
    using Cons.IH Cons.prems(2) r by fastforce
  then show ?case using b r by simp
qed

lemma all_less_Suc_0: "(\<forall>i<Suc n. P i) \<longleftrightarrow> P 0 \<and> (\<forall>i<n. P (Suc i))"
  by (auto simp: less_Suc_eq_0_disj)

lemma tri_eqs_nth:
  "tri_eqs p rows xs \<longleftrightarrow>
     length xs = length rows \<and>
     (\<forall>i<length rows.
        fst (rows ! i) * (if i = 0 then p else xs ! (i - 1)) +
        fst (snd (rows ! i)) * xs ! i +
        fst (snd (snd (rows ! i))) * (if i + 1 < length xs then xs ! (i + 1) else 0) =
        snd (snd (snd (rows ! i))))"
proof (induction rows arbitrary: p xs)
  case Nil
  then show ?case by auto
next
  case (Cons r rows)
  obtain a b c d where r: "r = (a, b, c, d)" by (cases r)
  show ?case
  proof (cases xs)
    case Nil
    then show ?thesis by (simp add: r)
  next
    case xs: (Cons x ys)
    have hd: "(case ys of [] \<Rightarrow> 0 | y # _ \<Rightarrow> y) = (if 0 < length ys then ys ! 0 else 0)"
      by (cases ys) simp_all
    show ?thesis
      unfolding xs r tri_eqs.simps Cons.IH length_Cons all_less_Suc_0 hd
      by (simp add: nth_Cons' conj_ac cong: conj_cong)
  qed
qed


lemma map2_upt:
  "length x = n \<Longrightarrow> map2 h (map e [0..<n]) x = map (\<lambda>j. h (e j) (x ! j)) [0..<n]"
  by (auto simp: list_eq_iff_nth_eq)

lemma mat_vec_matrix_of:
  assumes "length x = J"
  shows "mat_vec (matrix_of J e) x = map (\<lambda>i. \<Sum>j = 0..<J. e i j * x ! j) [0..<J]"
  using assms
  by (simp add: mat_vec_def matrix_of_def map2_upt interv_sum_list_conv_sum_set_nat comp_def)

lemma sum_list_mat_vec:
  assumes "length x = J" and cs: "\<And>j. j < J \<Longrightarrow> (\<Sum>i = 0..<J. e i j) = 1"
  shows "sum_list (mat_vec (matrix_of J e) x) = sum_list x"
proof -
  have "sum_list (mat_vec (matrix_of J e) x) = (\<Sum>i = 0..<J. \<Sum>j = 0..<J. e i j * x ! j)"
    using assms(1) by (simp add: mat_vec_matrix_of interv_sum_list_conv_sum_set_nat)
  also have "\<dots> = (\<Sum>j = 0..<J. \<Sum>i = 0..<J. e i j * x ! j)"
    by (rule sum.swap)
  also have "\<dots> = (\<Sum>j = 0..<J. (\<Sum>i = 0..<J. e i j) * x ! j)"
    by (simp add: sum_distrib_right)
  also have "\<dots> = (\<Sum>j = 0..<J. x ! j)"
    by (rule sum.cong) (simp_all add: cs)
  also have "\<dots> = sum_list x"
    using assms(1) by (simp add: sum_list_sum_nth)
  finally show ?thesis .
qed

lemma tri_sum:
  fixes y :: "nat \<Rightarrow> real"
  assumes "i < n"
  shows "(\<Sum>j = 0..<n. (if i = j then d else if i = j + 1 \<or> j = i + 1 then c else 0) * y j) =
     d * y i + (if 0 < i then c * y (i - 1) else 0) + (if i + 1 < n then c * y (i + 1) else 0)"
proof -
  have "(\<Sum>j = 0..<n. (if i = j then d else if i = j + 1 \<or> j = i + 1 then c else 0) * y j) =
     (\<Sum>j = 0..<n. (if j = i then d * y j else 0) +
        (if j = i - 1 then (if 0 < i then c * y j else 0) else 0) +
        (if j = i + 1 then c * y j else 0))"
    by (rule sum.cong) auto
  also have "\<dots> = d * y i + (if 0 < i then c * y (i - 1) else 0) +
      (if i + 1 < n then c * y (i + 1) else 0)"
    using assms by (auto simp add: sum.distrib sum.delta)
  finally show ?thesis .
qed

lemma A_spec_row:
  assumes "length x = J" "i < J"
  shows "mat_vec (matrix_of J (A_spec J s)) x ! i =
     (if i = 0 \<or> i = J - 1 then 1 + s else 1 + 2 * s) * x ! i +
     (if 0 < i then - s * x ! (i - 1) else 0) + (if i + 1 < J then - s * x ! (i + 1) else 0)"
proof -
  have "mat_vec (matrix_of J (A_spec J s)) x ! i = (\<Sum>j = 0..<J. A_spec J s i j * x ! j)"
    using assms by (simp add: mat_vec_matrix_of)
  also have "\<dots> = (\<Sum>j = 0..<J. (if i = j then (if i = 0 \<or> i = J - 1 then 1 + s else 1 + 2 * s)
      else if i = j + 1 \<or> j = i + 1 then - s else 0) * x ! j)"
    unfolding A_spec_def ..
  finally show ?thesis
    unfolding tri_sum [OF assms(2)] .
qed

lemma B_spec_row:
  assumes "length x = J" "i < J"
  shows "mat_vec (matrix_of J (B_spec J s)) x ! i =
     (if i = 0 \<or> i = J - 1 then 1 - s else 1 - 2 * s) * x ! i +
     (if 0 < i then s * x ! (i - 1) else 0) + (if i + 1 < J then s * x ! (i + 1) else 0)"
proof -
  have "mat_vec (matrix_of J (B_spec J s)) x ! i = (\<Sum>j = 0..<J. B_spec J s i j * x ! j)"
    using assms by (simp add: mat_vec_matrix_of)
  also have "\<dots> = (\<Sum>j = 0..<J. (if i = j then (if i = 0 \<or> i = J - 1 then 1 - s else 1 - 2 * s)
      else if i = j + 1 \<or> j = i + 1 then s else 0) * x ! j)"
    unfolding B_spec_def ..
  finally show ?thesis
    unfolding tri_sum [OF assms(2)] .
qed

lemma A_spec_column_sum:
  assumes "2 \<le> J" "j < J"
  shows "(\<Sum>i = 0..<J. A_spec J s i j) = 1"
proof -
  have "(\<Sum>i = 0..<J. A_spec J s i j) =
     (\<Sum>i = 0..<J. (if j = i then (if j = 0 \<or> j = J - 1 then 1 + s else 1 + 2 * s)
        else if j = i + 1 \<or> i = j + 1 then - s else 0) * 1)"
    by (rule sum.cong) (auto simp: A_spec_def)
  also have "\<dots> = 1"
    unfolding tri_sum [OF assms(2)] using assms by auto
  finally show ?thesis .
qed

lemma B_spec_column_sum:
  assumes "2 \<le> J" "j < J"
  shows "(\<Sum>i = 0..<J. B_spec J s i j) = 1"
proof -
  have "(\<Sum>i = 0..<J. B_spec J s i j) =
     (\<Sum>i = 0..<J. (if j = i then (if j = 0 \<or> j = J - 1 then 1 - s else 1 - 2 * s)
        else if j = i + 1 \<or> i = j + 1 then s else 0) * 1)"
    by (rule sum.cong) (auto simp: B_spec_def)
  also have "\<dots> = 1"
    unfolding tri_sum [OF assms(2)] using assms by auto
  finally show ?thesis .
qed


lemma dominant_zero:
  fixes y a b p q :: real
  assumes "0 \<le> p" "0 \<le> q" "(1 + p + q) * y = p * a + q * b" "\<bar>a\<bar> \<le> \<bar>y\<bar>" "\<bar>b\<bar> \<le> \<bar>y\<bar>"
  shows "y = 0"
proof -
  have "(1 + p + q) * \<bar>y\<bar> = \<bar>(1 + p + q) * y\<bar>"
    using assms(1,2) by (simp add: abs_mult)
  also have "\<dots> \<le> \<bar>p * a\<bar> + \<bar>q * b\<bar>"
    unfolding assms(3) by (rule abs_triangle_ineq)
  also have "\<dots> = p * \<bar>a\<bar> + q * \<bar>b\<bar>"
    using assms(1,2) by (simp add: abs_mult)
  also have "\<dots> \<le> p * \<bar>y\<bar> + q * \<bar>y\<bar>"
    using assms by (intro add_mono mult_left_mono)
  finally have "\<bar>y\<bar> \<le> 0" by (simp add: algebra_simps)
  then show ?thesis by simp
qed

lemma A_spec_kernel:
  assumes s: "0 \<le> s" and J: "2 \<le> J" and lz: "length z = J"
    and Az: "mat_vec (matrix_of J (A_spec J s)) z = replicate J 0"
  shows "z = replicate J 0"
proof -
  let ?S = "(\<lambda>j. \<bar>z ! j\<bar>) ` {0..<J}"
  have fin: "finite ?S" and ne: "?S \<noteq> {}" using J by auto
  from Max_in [OF fin ne] obtain i where i: "i < J" and mi: "Max ?S = \<bar>z ! i\<bar>" by auto
  have le: "\<bar>z ! j\<bar> \<le> \<bar>z ! i\<bar>" if "j < J" for j
    using Max_ge [OF fin, of "\<bar>z ! j\<bar>"] that mi by auto
  define p where "p = (if 0 < i then s else 0)"
  define q where "q = (if i + 1 < J then s else 0)"
  define a where "a = (if 0 < i then z ! (i - 1) else 0)"
  define b where "b = (if i + 1 < J then z ! (i + 1) else 0)"
  have "mat_vec (matrix_of J (A_spec J s)) z ! i = 0"
    using Az i by simp
  moreover have "(if i = 0 \<or> i = J - 1 then 1 + s else 1 + 2 * s) = 1 + p + q"
    using i J by (auto simp: p_def q_def)
  moreover have "(if 0 < i then - s * z ! (i - 1) else 0) = - (p * a)"
    "(if i + 1 < J then - s * z ! (i + 1) else 0) = - (q * b)"
    by (simp_all add: p_def q_def a_def b_def)
  ultimately have "(1 + p + q) * z ! i = p * a + q * b"
    unfolding A_spec_row [OF lz i] by simp
  moreover have "\<bar>a\<bar> \<le> \<bar>z ! i\<bar>" "\<bar>b\<bar> \<le> \<bar>z ! i\<bar>"
    using le [of "i - 1"] le [of "i + 1"] i by (auto simp: a_def b_def)
  moreover have "0 \<le> p" "0 \<le> q" using s by (auto simp: p_def q_def)
  ultimately have "z ! i = 0" using dominant_zero [of p q "z ! i" a b] by blast
  then have "z ! j = 0" if "j < J" for j using le [OF that] by simp
  then show ?thesis using lz by (simp add: list_eq_iff_nth_eq)
qed


lemma matrix_of_nth: "i < J \<Longrightarrow> j < J \<Longrightarrow> matrix_of J e ! i ! j = e i j"
  by (simp add: matrix_of_def)

lemma bands_A_spec:
  "bands (matrix_of J (A_spec J s)) b =
     map (\<lambda>i. (if i = 0 then 0 else - s, if i = 0 \<or> i = J - 1 then 1 + s else 1 + 2 * s,
               if i + 1 < J then - s else 0, b ! i)) [0..<J]"
  unfolding bands_def
  by (rule map_cong) (auto simp: matrix_of_nth A_spec_def matrix_of_def)

lemma tridiagonal_solve_A_spec:
  assumes s: "0 \<le> s" and J: "2 \<le> J" and lb: "length b = J"
  shows "\<exists>x. tridiagonal_solve (matrix_of J (A_spec J s)) b = Inr x \<and> length x = J \<and>
           mat_vec (matrix_of J (A_spec J s)) x = b"
proof -
  let ?A = "matrix_of J (A_spec J s)"
  let ?f = "\<lambda>i. (if i = 0 then 0 else - s, if i = 0 \<or> i = J - 1 then 1 + s else 1 + 2 * s,
               if i + 1 < J then - s else 0, b ! i)"
  have upt: "[0..<J] = 0 # [1..<J]" using J by (simp add: upt_conv_Cons)
  have bands: "bands ?A b = (0, 1 + s, - s, b ! 0) # map ?f [1..<J]"
    unfolding bands_A_spec using J by (subst upt) simp
  have dom: "list_all (\<lambda>(a', b', c', d'). \<bar>a'\<bar> + \<bar>c'\<bar> < \<bar>b'\<bar>) (map ?f [1..<J])"
    using s by (auto simp: list_all_iff)
  have "\<bar>- s\<bar> < \<bar>1 + s\<bar>" using s by simp
  from thomas_succeeds [OF this dom] obtain xs where
    xs: "thomas (1 + s) (- s) (b ! 0) (map ?f [1..<J]) = Some xs" by blast
  have solve: "tridiagonal_solve ?A b = Inr xs"
    unfolding tridiagonal_solve_def bands list.case prod.case xs option.case ..
  have te: "tri_eqs 0 (map ?f [0..<J]) xs"
    unfolding bands_A_spec [symmetric] bands by (rule thomas_sound [OF xs])
  have lx: "length xs = J"
    using te unfolding tri_eqs_nth by simp
  have eqs: "(if i = 0 then 0 else - s) * (if i = 0 then 0 else xs ! (i - 1)) +
        (if i = 0 \<or> i = J - 1 then 1 + s else 1 + 2 * s) * xs ! i +
        (if i + 1 < J then - s else 0) * (if i + 1 < J then xs ! (i + 1) else 0) = b ! i"
    if "i < J" for i
    using te [unfolded tri_eqs_nth, THEN conjunct2, rule_format, of i] that lx by simp
  have "mat_vec ?A xs ! i = b ! i" if "i < J" for i
    unfolding A_spec_row [OF lx that] using eqs [OF that] by (auto split: if_splits)
  then have "mat_vec ?A xs = b"
    using lb by (simp add: list_eq_iff_nth_eq)
  then show ?thesis using solve lx by simp
qed




lemma A_u_nonsingular: "0 \<le> s \<Longrightarrow> 2 \<le> J \<Longrightarrow> \<not> singular (A_u J s)"
  using A_spec_kernel [of s J] by (auto simp: singular_def A_u_matrix_of)


lemma tridiagonal_solve_exact:
  assumes "0 \<le> s" "2 \<le> J"
  shows "exact_solver tridiagonal_solve (A_u J s)"
  unfolding exact_solver_def
proof (intro allI impI)
  fix b :: "real list" assume "length b = length (A_u J s)"
  then have "length b = J" using assms(2) by (simp add: A_u_matrix_of)
  from tridiagonal_solve_A_spec [OF assms this]
  show "case tridiagonal_solve (A_u J s) b of
          Inl e \<Rightarrow> e = LinAlgError \<and> singular (A_u J s)
        | Inr x \<Rightarrow> length x = length (A_u J s) \<and> mat_vec (A_u J s) x = b"
    using assms(2) by (auto simp: A_u_matrix_of)
qed

lemma exact_solver_succeeds:
  assumes "exact_solver solve A" "\<not> singular A" "length b = length A"
  shows "\<exists>x. solve A b = Inr x \<and> length x = length A \<and> mat_vec A x = b"
  using assms unfolding exact_solver_def by (cases "solve A b") (auto split: sum.splits)

subsection \<open>Runs of the time loop\<close>

lemma simulate_unfold:
  assumes "length U = J" "length V = J" "1 \<le> N"
  shows "simulate solve junk J N dt k0 su sv U V =
     time_loop (loop_body solve dt k0 (A_u J su) (B_u J su) (A_v J sv) (B_v J sv)) [1..<N]
       (initial_records junk N J U V)"
  using assms by (simp add: simulate_def initial_records_def set_row_ok [OF has_shape_np_empty])

lemma shaped_initial_records:
  "length U = J \<Longrightarrow> length V = J \<Longrightarrow> shaped N J (initial_records junk N J U V)"
  by (simp add: shaped_def initial_records_def has_shape_update has_shape_np_empty)

lemma initial_records_0:
  assumes "1 \<le> N"
  shows "U_record_ee (initial_records junk N J U V) ! 0 = U"
    "V_record_ee (initial_records junk N J U V) ! 0 = V"
    "U_record_rk (initial_records junk N J U V) ! 0 = U"
    "V_record_rk (initial_records junk N J U V) ! 0 = V"
  using assms by (simp_all add: initial_records_def np_empty_def)

lemma simulate_props:
  assumes "2 \<le> J" "1 \<le> N" "length U = J" "length V = J"
    and "exact_solver solve (A_u J su)" "exact_solver solve (A_v J sv)"
    and "simulate solve junk J N dt k0 su sv U V = Inr r"
  shows "shaped N J r"
    "recurrence solve (f_vec_ee dt k0) (A_u J su) (B_u J su) (A_v J sv) (B_v J sv) N
       (U_record_ee r) (V_record_ee r)"
    "recurrence solve (f_vec_rk dt k0) (A_u J su) (B_u J su) (A_v J sv) (B_v J sv) N
       (U_record_rk r) (V_record_rk r)"
    "U_record_ee r ! 0 = U" "V_record_ee r ! 0 = V" "U_record_rk r ! 0 = U" "V_record_rk r ! 0 = V"
  using loop_invariant [OF assms(1,5,6) shaped_initial_records [OF assms(3,4)] order_refl
      assms(7) [unfolded simulate_unfold [OF assms(3,4,2)]]]
    initial_records_0 [OF assms(2)]
  by simp_all

lemma time_step_succeeds:
  assumes "2 \<le> J" "exact_solver solve (A_u J su)" "exact_solver solve (A_v J sv)"
    and "\<not> singular (A_u J su)" "\<not> singular (A_v J sv)"
    and "length U = J" "length V = J" "react U V = Some \<rho>" "length \<rho> = J"
  shows "\<exists>p. time_step solve react (A_u J su) (B_u J su) (A_v J sv) (B_v J sv) (U, V) = Inr p"
proof -
  obtain x where "solve (A_u J su) (np_add (mat_vec (B_u J su) U) \<rho>) = Inr x"
    using exact_solver_succeeds [OF assms(2,4), of "np_add (mat_vec (B_u J su) U) \<rho>"] assms(1,6,9)
    by auto
  moreover obtain y where "solve (A_v J sv) (np_subtract (mat_vec (B_v J sv) V) \<rho>) = Inr y"
    using exact_solver_succeeds [OF assms(3,5), of "np_subtract (mat_vec (B_v J sv) V) \<rho>"] assms(1,7,9)
    by (auto simp: A_v_eq_A_u B_v_eq_B_u)
  ultimately show ?thesis
    using assms(8) by (simp add: time_step_def finite_or_def)
qed

lemma loop_succeeds:
  assumes J: "2 \<le> J" and eu: "exact_solver solve (A_u J su)" and ev: "exact_solver solve (A_v J sv)"
    and nu: "\<not> singular (A_u J su)" and nv: "\<not> singular (A_v J sv)"
    and sh: "shaped N J r0" and n: "n \<le> N"
  shows "\<exists>r. time_loop (loop_body solve dt k0 (A_u J su) (B_u J su) (A_v J sv) (B_v J sv)) [1..<n] r0 = Inr r"
  using n
proof (induction n)
  case 0
  then show ?case by simp
next
  case (Suc n)
  show ?case
  proof (cases "n = 0")
    case True
    then show ?thesis by simp
  next
    case False
    then have n1: "1 \<le> n" "n < N" using Suc.prems by auto
    have upt: "[1..<Suc n] = [1..<n] @ [n]" using n1 by simp
    obtain rm where rm: "time_loop (loop_body solve dt k0 (A_u J su) (B_u J su) (A_v J sv) (B_v J sv)) [1..<n] r0 = Inr rm"
      using Suc.IH n1 by auto
    have shm: "shaped N J rm"
      using loop_invariant [OF J eu ev sh _ rm] n1 by simp
    let ?Ue = "U_record_ee rm ! (n - 1)" and ?Ve = "V_record_ee rm ! (n - 1)"
    let ?Ur = "U_record_rk rm ! (n - 1)" and ?Vr = "V_record_rk rm ! (n - 1)"
    have l: "length ?Ue = J" "length ?Ve = J" "length ?Ur = J" "length ?Vr = J"
      using shm n1 by (auto simp: shaped_def intro!: has_shape_nth)
    obtain \<rho>e where rhoe: "f_vec_ee dt k0 ?Ue ?Ve = Some \<rho>e" "length \<rho>e = J"
      using f_vec_ee_length l by blast
    obtain \<rho>r where rhor: "f_vec_rk dt k0 ?Ur ?Vr = Some \<rho>r" "length \<rho>r = J"
      using f_vec_rk_length l by blast
    obtain p where p: "time_step solve (f_vec_ee dt k0) (A_u J su) (B_u J su) (A_v J sv) (B_v J sv) (?Ue, ?Ve) = Inr p"
      using time_step_succeeds [where react = "f_vec_ee dt k0", OF J eu ev nu nv l(1,2) rhoe] by blast
    obtain q where q: "time_step solve (f_vec_rk dt k0) (A_u J su) (B_u J su) (A_v J sv) (B_v J sv) (?Ur, ?Vr) = Inr q"
      using time_step_succeeds [where react = "f_vec_rk dt k0", OF J eu ev nu nv l(3,4) rhor] by blast
    show ?thesis
      unfolding upt time_loop_snoc rm bind_r_simps loop_body_eq [OF J eu ev shm n1] p q by simp
  qed
qed

lemma simulate_succeeds:
  assumes "2 \<le> J" "1 \<le> N" "length U = J" "length V = J"
    and "exact_solver solve (A_u J su)" "exact_solver solve (A_v J sv)"
    and "0 \<le> su" "0 \<le> sv"
  shows "\<exists>r. simulate solve junk J N dt k0 su sv U V = Inr r"
  unfolding simulate_unfold [OF assms(3,4,2)]
  using assms
  by (intro loop_succeeds [where N = N and J = J] shaped_initial_records)
     (simp_all add: A_u_nonsingular A_v_eq_A_u)


lemma sum_list_np_add:
  "length xs = length ys \<Longrightarrow> sum_list (np_add xs ys) = sum_list xs + sum_list ys"
  by (induction xs ys rule: list_induct2) (simp_all add: np_add_def)

lemma sum_list_np_subtract:
  "length xs = length ys \<Longrightarrow> sum_list (np_subtract xs ys) = sum_list xs - sum_list ys"
  by (induction xs ys rule: list_induct2) (simp_all add: np_subtract_def)

lemma mass_eq: "length U = length V \<Longrightarrow> mass dx U V = dx * (sum_list U + sum_list V)"
proof (induction U V rule: list_induct2)
  case Nil
  then show ?case by (simp add: mass_def np_add_def np_multiply_s_def)
next
  case (Cons u U v V)
  then show ?case by (simp add: mass_def np_add_def np_multiply_s_def algebra_simps)
qed

lemma mass_as_sum:
  assumes "length U = J" "length V = J"
  shows "mass dx U V = (\<Sum>j = 0..<J. (U ! j + V ! j) * dx)"
proof -
  have "mass dx U V = dx * ((\<Sum>j = 0..<J. U ! j) + (\<Sum>j = 0..<J. V ! j))"
    using assms by (simp add: mass_eq sum_list_sum_nth)
  also have "\<dots> = (\<Sum>j = 0..<J. (U ! j + V ! j) * dx)"
    by (simp add: sum.distrib sum_distrib_left sum_distrib_right algebra_simps)
  finally show ?thesis .
qed

lemma sum_list_A_u: "2 \<le> J \<Longrightarrow> length x = J \<Longrightarrow> sum_list (mat_vec (A_u J s) x) = sum_list x"
  by (simp add: A_u_matrix_of sum_list_mat_vec A_spec_column_sum)

lemma sum_list_B_u: "2 \<le> J \<Longrightarrow> length x = J \<Longrightarrow> sum_list (mat_vec (B_u J s) x) = sum_list x"
  by (simp add: B_u_matrix_of sum_list_mat_vec B_spec_column_sum)

lemma mass_step:
  assumes J: "2 \<le> J" and l: "length U = J" "length V = J" "length x = J" "length y = J" "length \<rho> = J"
    and x: "mat_vec (A_u J su) x = np_add (mat_vec (B_u J su) U) \<rho>"
    and y: "mat_vec (A_v J sv) y = np_subtract (mat_vec (B_v J sv) V) \<rho>"
  shows "mass dx x y = mass dx U V"
proof -
  have "sum_list x = sum_list (np_add (mat_vec (B_u J su) U) \<rho>)"
    using sum_list_A_u [OF J l(3), of su] x by simp
  also have "\<dots> = sum_list U + sum_list \<rho>"
    using J l by (simp add: sum_list_np_add sum_list_B_u)
  finally have sx: "sum_list x = sum_list U + sum_list \<rho>" .
  have "sum_list y = sum_list (np_subtract (mat_vec (B_v J sv) V) \<rho>)"
    using sum_list_A_u [OF J l(4), of sv] y by (simp add: A_v_eq_A_u)
  also have "\<dots> = sum_list V - sum_list \<rho>"
    using J l by (simp add: sum_list_np_subtract sum_list_B_u B_v_eq_B_u)
  finally have sy: "sum_list y = sum_list V - sum_list \<rho>" .
  show ?thesis
    using l by (simp add: mass_eq sx sy)
qed

lemma recurrence_mass:
  assumes J: "2 \<le> J" and eu: "exact_solver solve (A_u J su)" and ev: "exact_solver solve (A_v J sv)"
    and sh: "has_shape N J Us" "has_shape N J Vs"
    and rec: "recurrence solve react (A_u J su) (B_u J su) (A_v J sv) (B_v J sv) N Us Vs"
    and react: "total_reaction J react"
    and n: "1 \<le> n" "n < N"
  shows "mass dx (Us ! n) (Vs ! n) = mass dx (Us ! (n - 1)) (Vs ! (n - 1))"
proof -
  have l: "length (Us ! (n - 1)) = J" "length (Vs ! (n - 1)) = J"
    using sh n by (auto intro!: has_shape_nth)
  obtain \<rho> where rho: "react (Us ! (n - 1)) (Vs ! (n - 1)) = Some \<rho>" "length \<rho> = J"
    using react l unfolding total_reaction_def by blast
  have ts: "time_step solve react (A_u J su) (B_u J su) (A_v J sv) (B_v J sv)
      (Us ! (n - 1), Vs ! (n - 1)) = Inr (Us ! n, Vs ! n)"
    using rec n by (simp add: recurrence_iff)
  from time_step_lengths [where react = react, OF J eu ev l rho ts]
  show ?thesis
    using mass_step [OF J l, of "Us ! n" "Vs ! n" \<rho> su sv dx] rho(2) by simp
qed

lemma recurrence_mass_0:
  assumes J: "2 \<le> J" and eu: "exact_solver solve (A_u J su)" and ev: "exact_solver solve (A_v J sv)"
    and sh: "has_shape N J Us" "has_shape N J Vs"
    and rec: "recurrence solve react (A_u J su) (B_u J su) (A_v J sv) (B_v J sv) N Us Vs"
    and react: "total_reaction J react"
    and n: "n < N"
  shows "mass dx (Us ! n) (Vs ! n) = mass dx (Us ! 0) (Vs ! 0)"
  using n
proof (induction n)
  case 0
  then show ?case by simp
next
  case (Suc n)
  have "mass dx (Us ! Suc n) (Vs ! Suc n) = mass dx (Us ! (Suc n - 1)) (Vs ! (Suc n - 1))"
    using Suc.prems by (intro recurrence_mass [OF J eu ev sh rec react]) simp_all
  then show ?case using Suc by simp
qed


lemma column_sums:
  assumes "2 \<le> J" "j < J"
  shows "(\<Sum>i = 0..<J. A_u J s ! i ! j) = 1" "(\<Sum>i = 0..<J. B_u J s ! i ! j) = 1"
    "(\<Sum>i = 0..<J. A_v J s ! i ! j) = 1" "(\<Sum>i = 0..<J. B_v J s ! i ! j) = 1"
  using assms A_spec_column_sum [OF assms, of s] B_spec_column_sum [OF assms, of s]
  by (simp_all add: A_u_matrix_of B_u_matrix_of A_v_eq_A_u B_v_eq_B_u matrix_of_nth)

lemma example_run:
  "\<exists>r. simulate tridiagonal_solve (\<lambda>_ _ _. 0) 2 3 (1 / 2) (1 / 10) 1 2 [1, 2] [3, 4] = Inr r"
  by (rule simulate_succeeds) (simp_all add: tridiagonal_solve_exact A_v_eq_A_u)



text \<open>
  Claim C5. In a run that returns, with solvers exact on the implicit operators, the
  discrete total mass \<open>\<Sum>\<^sub>j (U\<^sub>j + V\<^sub>j)\<cdot>dx\<close> after every time step equals its value before the
  step, for both variants, and so equals the mass of the initial condition. The reasons
  are the ones the claim gives: the same contribution is added for \<open>U\<close> and subtracted for
  \<open>V\<close>, and every column of each \<open>A\<close> and \<open>B\<close> sums to 1.
\<close>

theorem mass_conserved:
  assumes "2 \<le> J" and "1 \<le> N" and "length U = J" and "length V = J"
    and "exact_solver solve (A_u J su)" and "exact_solver solve (A_v J sv)"
    and "simulate solve junk J N dt k0 su sv U V = Inr r" and "1 \<le> n" and "n < N"
  shows "mass dx (U_record_ee r ! n) (V_record_ee r ! n) =
           mass dx (U_record_ee r ! (n - 1)) (V_record_ee r ! (n - 1)) \<and>
         mass dx (U_record_rk r ! n) (V_record_rk r ! n) =
           mass dx (U_record_rk r ! (n - 1)) (V_record_rk r ! (n - 1)) \<and>
         mass dx (U_record_ee r ! n) (V_record_ee r ! n) = mass dx U V \<and>
         mass dx (U_record_rk r ! n) (V_record_rk r ! n) = mass dx U V \<and>
         mass dx (U_record_ee r ! n) (V_record_ee r ! n) =
           (\<Sum>j = 0..<J. (U_record_ee r ! n ! j + V_record_ee r ! n ! j) * dx) \<and>
         mass dx (U_record_rk r ! n) (V_record_rk r ! n) =
           (\<Sum>j = 0..<J. (U_record_rk r ! n ! j + V_record_rk r ! n ! j) * dx) \<and>
         (\<forall>j<J. (\<Sum>i = 0..<J. A_u J su ! i ! j) = 1 \<and> (\<Sum>i = 0..<J. B_u J su ! i ! j) = 1 \<and>
                (\<Sum>i = 0..<J. A_v J sv ! i ! j) = 1 \<and> (\<Sum>i = 0..<J. B_v J sv ! i ! j) = 1)"
proof -
  note P = simulate_props [OF assms(1-7)]
  have sh: "has_shape N J (U_record_ee r)" "has_shape N J (V_record_ee r)"
    "has_shape N J (U_record_rk r)" "has_shape N J (V_record_rk r)"
    using P(1) by (simp_all add: shaped_def)
  have ee: "total_reaction J (f_vec_ee dt k0)"
    unfolding total_reaction_def using f_vec_ee_length by blast
  have rk: "total_reaction J (f_vec_rk dt k0)"
    unfolding total_reaction_def using f_vec_rk_length by blast
  have "mass dx (U_record_ee r ! n) (V_record_ee r ! n) =
      mass dx (U_record_ee r ! (n - 1)) (V_record_ee r ! (n - 1))"
    by (rule recurrence_mass [OF assms(1,5,6) sh(1,2) P(2) ee assms(8,9)])
  moreover have "mass dx (U_record_rk r ! n) (V_record_rk r ! n) =
      mass dx (U_record_rk r ! (n - 1)) (V_record_rk r ! (n - 1))"
    by (rule recurrence_mass [OF assms(1,5,6) sh(3,4) P(3) rk assms(8,9)])
  moreover have "mass dx (U_record_ee r ! n) (V_record_ee r ! n) = mass dx U V"
    using recurrence_mass_0 [OF assms(1,5,6) sh(1,2) P(2) ee assms(9)] P(4,5)
    by simp
  moreover have "mass dx (U_record_rk r ! n) (V_record_rk r ! n) = mass dx U V"
    using recurrence_mass_0 [OF assms(1,5,6) sh(3,4) P(3) rk assms(9)] P(6,7)
    by simp
  moreover have "mass dx (U_record_ee r ! n) (V_record_ee r ! n) =
      (\<Sum>j = 0..<J. (U_record_ee r ! n ! j + V_record_ee r ! n ! j) * dx)"
    using sh(1,2) assms(9) by (intro mass_as_sum has_shape_nth)
  moreover have "mass dx (U_record_rk r ! n) (V_record_rk r ! n) =
      (\<Sum>j = 0..<J. (U_record_rk r ! n ! j + V_record_rk r ! n ! j) * dx)"
    using sh(3,4) assms(9) by (intro mass_as_sum has_shape_nth)
  ultimately show ?thesis
    using column_sums [OF assms(1)] by simp
qed

theorem mass_conserved_witness:
  "\<exists>r. simulate tridiagonal_solve (\<lambda>_ _ _. 0) 2 3 (1 / 2) (1 / 10) 1 2 [1, 2] [3, 4] = Inr r \<and>
     mass (1 / 3) (U_record_ee r ! 2) (V_record_ee r ! 2) = 10 / 3 \<and>
     mass (1 / 3) (U_record_rk r ! 2) (V_record_rk r ! 2) = 10 / 3"
proof -
  obtain r where r: "simulate tridiagonal_solve (\<lambda>_ _ _. 0) 2 3 (1 / 2) (1 / 10) 1 2 [1, 2] [3, 4] = Inr r"
    using example_run by blast
  have eu: "exact_solver tridiagonal_solve (A_u 2 1)" and ev: "exact_solver tridiagonal_solve (A_v 2 2)"
    by (simp_all add: tridiagonal_solve_exact A_v_eq_A_u)
  have m: "mass (1 / 3) [1, 2] [3, 4] = 10 / 3"
    by (simp add: mass_def np_add_def np_multiply_s_def)
  show ?thesis
    using mass_conserved [OF _ _ _ _ eu ev r, of 2 "1 / 3"] r m by simp
qed

lemma np_subtract_as_add: "np_subtract xs ys = np_add xs (map uminus ys)"
proof (induction xs arbitrary: ys)
  case Nil
  then show ?case by (simp add: np_subtract_def np_add_def)
next
  case (Cons a xs)
  then show ?case by (cases ys) (simp_all add: np_subtract_def np_add_def)
qed

text \<open>
  Claim C6. At every time step \<open>ti\<close> the loop body is the following program: the reaction
  contribution \<open>\<rho>\<close> of the previous state is computed, \<open>U\<close> is solved from \<open>B_U\<cdot>U + \<rho>\<close> and
  \<open>V\<close> from \<open>B_V\<cdot>V + (-\<rho>)\<close>, the elementwise negation of the same vector, for the explicit
  and for the Runge-Kutta variant. (The body evaluates the reaction function a second time
  for \<open>V\<close>, after row \<open>ti\<close> of the \<open>U\<close> record is written; it reads row \<open>ti - 1\<close>, the
  same state.) The scalar lambdas satisfy \<open>g = -f\<close>.
\<close>

theorem reaction_antisymmetric:
  assumes "2 \<le> J" and "exact_solver solve (A_u J su)" and "exact_solver solve (A_v J sv)"
    and "shaped N J r" and "1 \<le> ti" and "ti < N"
  shows "\<exists>\<rho>e \<rho>r.
     f_vec_ee dt k0 (U_record_ee r ! (ti - 1)) (V_record_ee r ! (ti - 1)) = Some \<rho>e \<and>
     f_vec_rk dt k0 (U_record_rk r ! (ti - 1)) (V_record_rk r ! (ti - 1)) = Some \<rho>r \<and>
     length \<rho>e = J \<and> length \<rho>r = J \<and>
     loop_body solve dt k0 (A_u J su) (B_u J su) (A_v J sv) (B_v J sv) ti r =
       bind_r (solve (A_u J su) (np_add (mat_vec (B_u J su) (U_record_ee r ! (ti - 1))) \<rho>e)) (\<lambda>x.
       bind_r (solve (A_v J sv)
                 (np_add (mat_vec (B_v J sv) (V_record_ee r ! (ti - 1))) (map uminus \<rho>e))) (\<lambda>y.
       bind_r (solve (A_u J su) (np_add (mat_vec (B_u J su) (U_record_rk r ! (ti - 1))) \<rho>r)) (\<lambda>z.
       bind_r (solve (A_v J sv)
                 (np_add (mat_vec (B_v J sv) (V_record_rk r ! (ti - 1))) (map uminus \<rho>r))) (\<lambda>w.
       Inr \<lparr>U_record_ee = (U_record_ee r)[ti := x], V_record_ee = (V_record_ee r)[ti := y],
            U_record_rk = (U_record_rk r)[ti := z], V_record_rk = (V_record_rk r)[ti := w]\<rparr>)))) \<and>
     (\<forall>u v. \<exists>q. f dt k0 u v = Inr q \<and> g dt k0 u v = Inr (- q))"
proof -
  let ?Ue = "U_record_ee r ! (ti - 1)" and ?Ve = "V_record_ee r ! (ti - 1)"
  let ?Ur = "U_record_rk r ! (ti - 1)" and ?Vr = "V_record_rk r ! (ti - 1)"
  have l: "length ?Ue = J" "length ?Ve = J" "length ?Ur = J" "length ?Vr = J"
    using assms(4-6) by (auto simp: shaped_def intro!: has_shape_nth)
  obtain \<rho>e where rhoe: "f_vec_ee dt k0 ?Ue ?Ve = Some \<rho>e" "length \<rho>e = J"
    using f_vec_ee_length l by blast
  obtain \<rho>r where rhor: "f_vec_rk dt k0 ?Ur ?Vr = Some \<rho>r" "length \<rho>r = J"
    using f_vec_rk_length l by blast
  have "1 + u * u \<noteq> 0" for u :: real
    using sum_power2_ge_zero [of 1 u] by (simp add: power2_eq_square add_nonneg_eq_0_iff)
  then have fg: "\<forall>u v. \<exists>q. f dt k0 u v = Inr q \<and> g dt k0 u v = Inr (- q)"
    by (simp add: f_def g_def py_div_def)
  have "loop_body solve dt k0 (A_u J su) (B_u J su) (A_v J sv) (B_v J sv) ti r =
       bind_r (solve (A_u J su) (np_add (mat_vec (B_u J su) ?Ue) \<rho>e)) (\<lambda>x.
       bind_r (solve (A_v J sv) (np_add (mat_vec (B_v J sv) ?Ve) (map uminus \<rho>e))) (\<lambda>y.
       bind_r (solve (A_u J su) (np_add (mat_vec (B_u J su) ?Ur) \<rho>r)) (\<lambda>z.
       bind_r (solve (A_v J sv) (np_add (mat_vec (B_v J sv) ?Vr) (map uminus \<rho>r))) (\<lambda>w.
       Inr \<lparr>U_record_ee = (U_record_ee r)[ti := x], V_record_ee = (V_record_ee r)[ti := y],
            U_record_rk = (U_record_rk r)[ti := z], V_record_rk = (V_record_rk r)[ti := w]\<rparr>))))"
    unfolding loop_body_eq [OF assms]
      time_step_Some [of "f_vec_ee dt k0" ?Ue ?Ve \<rho>e, OF rhoe(1)]
      time_step_Some [of "f_vec_rk dt k0" ?Ur ?Vr \<rho>r, OF rhor(1)]
      np_subtract_as_add bind_r_assoc bind_r_simps fst_conv snd_conv ..
  with rhoe rhor fg show ?thesis
    by (intro exI [of _ \<rho>e] exI [of _ \<rho>r] conjI)
qed

theorem reaction_antisymmetric_witness:
  "\<exists>\<rho>e \<rho>r. f_vec_ee (1 / 2) (1 / 10) [1, 2] [3, 4] = Some \<rho>e \<and>
     f_vec_rk (1 / 2) (1 / 10) [1, 2] [3, 4] = Some \<rho>r \<and>
     loop_body tridiagonal_solve (1 / 2) (1 / 10) (A_u 2 1) (B_u 2 1) (A_v 2 2) (B_v 2 2) 1
         (initial_records (\<lambda>_ _ _. 0) 2 2 [1, 2] [3, 4]) =
       bind_r (tridiagonal_solve (A_u 2 1) (np_add (mat_vec (B_u 2 1) [1, 2]) \<rho>e)) (\<lambda>x.
       bind_r (tridiagonal_solve (A_v 2 2) (np_add (mat_vec (B_v 2 2) [3, 4]) (map uminus \<rho>e))) (\<lambda>y.
       bind_r (tridiagonal_solve (A_u 2 1) (np_add (mat_vec (B_u 2 1) [1, 2]) \<rho>r)) (\<lambda>z.
       bind_r (tridiagonal_solve (A_v 2 2) (np_add (mat_vec (B_v 2 2) [3, 4]) (map uminus \<rho>r))) (\<lambda>w.
       Inr \<lparr>U_record_ee = [[1, 2], x], V_record_ee = [[3, 4], y],
            U_record_rk = [[1, 2], z], V_record_rk = [[3, 4], w]\<rparr>))))"
proof -
  have eu: "exact_solver tridiagonal_solve (A_u 2 1)" and ev: "exact_solver tridiagonal_solve (A_v 2 2)"
    by (simp_all add: tridiagonal_solve_exact A_v_eq_A_u)
  have sh: "shaped 2 2 (initial_records (\<lambda>_ _ _. 0) 2 2 [1, 2] [3, 4])"
    by (rule shaped_initial_records) simp_all
  have r0: "initial_records (\<lambda>_ _ _. 0) 2 2 [1, 2] [3, 4] =
      \<lparr>U_record_ee = [[1, 2], [0, 0]], V_record_ee = [[3, 4], [0, 0]],
       U_record_rk = [[1, 2], [0, 0]], V_record_rk = [[3, 4], [0, 0]]\<rparr>"
    by (simp add: initial_records_def np_empty_def upt_rec)
  have "(2::nat) \<le> 2" "(1::nat) \<le> 1" "(1::nat) < 2" by simp_all
  from reaction_antisymmetric [OF this(1) eu ev sh this(2,3), of "1 / 2" "1 / 10"]
  obtain \<rho>e \<rho>r where
    "f_vec_ee (1 / 2) (1 / 10) (U_record_ee (initial_records (\<lambda>_ _ _. 0) 2 2 [1, 2] [3, 4]) ! (1 - 1))
       (V_record_ee (initial_records (\<lambda>_ _ _. 0) 2 2 [1, 2] [3, 4]) ! (1 - 1)) = Some \<rho>e"
    "f_vec_rk (1 / 2) (1 / 10) (U_record_rk (initial_records (\<lambda>_ _ _. 0) 2 2 [1, 2] [3, 4]) ! (1 - 1))
       (V_record_rk (initial_records (\<lambda>_ _ _. 0) 2 2 [1, 2] [3, 4]) ! (1 - 1)) = Some \<rho>r"
    "loop_body tridiagonal_solve (1 / 2) (1 / 10) (A_u 2 1) (B_u 2 1) (A_v 2 2) (B_v 2 2) 1
         (initial_records (\<lambda>_ _ _. 0) 2 2 [1, 2] [3, 4]) =
       bind_r (tridiagonal_solve (A_u 2 1) (np_add (mat_vec (B_u 2 1)
         (U_record_ee (initial_records (\<lambda>_ _ _. 0) 2 2 [1, 2] [3, 4]) ! (1 - 1))) \<rho>e)) (\<lambda>x.
       bind_r (tridiagonal_solve (A_v 2 2) (np_add (mat_vec (B_v 2 2)
         (V_record_ee (initial_records (\<lambda>_ _ _. 0) 2 2 [1, 2] [3, 4]) ! (1 - 1))) (map uminus \<rho>e))) (\<lambda>y.
       bind_r (tridiagonal_solve (A_u 2 1) (np_add (mat_vec (B_u 2 1)
         (U_record_rk (initial_records (\<lambda>_ _ _. 0) 2 2 [1, 2] [3, 4]) ! (1 - 1))) \<rho>r)) (\<lambda>z.
       bind_r (tridiagonal_solve (A_v 2 2) (np_add (mat_vec (B_v 2 2)
         (V_record_rk (initial_records (\<lambda>_ _ _. 0) 2 2 [1, 2] [3, 4]) ! (1 - 1))) (map uminus \<rho>r))) (\<lambda>w.
       Inr \<lparr>U_record_ee = (U_record_ee (initial_records (\<lambda>_ _ _. 0) 2 2 [1, 2] [3, 4]))[1 := x],
            V_record_ee = (V_record_ee (initial_records (\<lambda>_ _ _. 0) 2 2 [1, 2] [3, 4]))[1 := y],
            U_record_rk = (U_record_rk (initial_records (\<lambda>_ _ _. 0) 2 2 [1, 2] [3, 4]))[1 := z],
            V_record_rk = (V_record_rk (initial_records (\<lambda>_ _ _. 0) 2 2 [1, 2] [3, 4]))[1 := w]\<rparr>))))"
    by blast
  then show ?thesis
    by (intro exI [of _ \<rho>e] exI [of _ \<rho>r]) (simp add: r0)
qed

lemma time_loop_append:
  "time_loop body (ts @ us) r = bind_r (time_loop body ts r) (time_loop body us)"
proof (induction ts arbitrary: r)
  case Nil
  then show ?case by simp
next
  case (Cons a ts)
  then show ?case by (cases "body a r") simp_all
qed

lemma loop_body_rows:
  assumes J: "2 \<le> J" and eu: "exact_solver solve (A_u J su)" and ev: "exact_solver solve (A_v J sv)"
    and sh: "shaped N J r" and ti: "1 \<le> ti" "ti < N"
    and body: "loop_body solve dt k0 (A_u J su) (B_u J su) (A_v J sv) (B_v J sv) ti r = Inr r'"
  shows "shaped N J r'" and "m \<noteq> ti \<Longrightarrow> agree_on [m] r' r"
proof -
  have tl: "time_loop (loop_body solve dt k0 (A_u J su) (B_u J su) (A_v J sv) (B_v J sv)) [ti] r = Inr r'"
    using body by simp
  let ?Ue = "U_record_ee r ! (ti - 1)" and ?Ve = "V_record_ee r ! (ti - 1)"
  let ?Ur = "U_record_rk r ! (ti - 1)" and ?Vr = "V_record_rk r ! (ti - 1)"
  from body obtain p q where
    p: "time_step solve (f_vec_ee dt k0) (A_u J su) (B_u J su) (A_v J sv) (B_v J sv) (?Ue, ?Ve) = Inr p"
    and q: "time_step solve (f_vec_rk dt k0) (A_u J su) (B_u J su) (A_v J sv) (B_v J sv) (?Ur, ?Vr) = Inr q"
    and r': "r' = \<lparr>U_record_ee = (U_record_ee r)[ti := fst p], V_record_ee = (V_record_ee r)[ti := snd p],
        U_record_rk = (U_record_rk r)[ti := fst q], V_record_rk = (V_record_rk r)[ti := snd q]\<rparr>"
    unfolding loop_body_eq [OF J eu ev sh ti] by (auto simp: bind_r_Inr_iff)
  have l: "length ?Ue = J" "length ?Ve = J" "length ?Ur = J" "length ?Vr = J"
    using sh ti by (auto simp: shaped_def intro!: has_shape_nth)
  obtain \<rho>e where rhoe: "f_vec_ee dt k0 ?Ue ?Ve = Some \<rho>e" "length \<rho>e = J"
    using f_vec_ee_length l by blast
  obtain \<rho>r where rhor: "f_vec_rk dt k0 ?Ur ?Vr = Some \<rho>r" "length \<rho>r = J"
    using f_vec_rk_length l by blast
  have lp: "length (fst p) = J" "length (snd p) = J"
    using time_step_lengths [where react = "f_vec_ee dt k0", OF J eu ev l(1,2) rhoe, of "fst p" "snd p"] p
    by simp_all
  have lq: "length (fst q) = J" "length (snd q) = J"
    using time_step_lengths [where react = "f_vec_rk dt k0", OF J eu ev l(3,4) rhor, of "fst q" "snd q"] q
    by simp_all
  show "shaped N J r'"
    using sh lp lq unfolding r' by (simp add: shaped_def has_shape_update)
  show "agree_on [m] r' r" if "m \<noteq> ti"
    using that unfolding r' by (simp add: agree_on_def)
qed

lemma agree_on_iff:
  "agree_on ms r r' \<longleftrightarrow>
     (\<forall>m\<in>set ms. U_record_ee r ! m = U_record_ee r' ! m \<and> V_record_ee r ! m = V_record_ee r' ! m \<and>
                   U_record_rk r ! m = U_record_rk r' ! m \<and> V_record_rk r ! m = V_record_rk r' ! m)"
  by (simp add: agree_on_def list_all_iff)

lemma loop_rows:
  assumes J: "2 \<le> J" and eu: "exact_solver solve (A_u J su)" and ev: "exact_solver solve (A_v J sv)"
    and sh: "shaped N J r0" and a: "1 \<le> a" and b: "b \<le> N"
    and run: "time_loop (loop_body solve dt k0 (A_u J su) (B_u J su) (A_v J sv) (B_v J sv)) [a..<b] r0 = Inr r"
  shows "shaped N J r \<and> agree_on [0..<a] r r0 \<and> agree_on [b..<N] r r0"
  using b run
proof (induction b arbitrary: r)
  case 0
  then show ?case using sh by (simp add: agree_on_iff)
next
  case (Suc b)
  show ?case
  proof (cases "a \<le> b")
    case False
    then show ?thesis using Suc.prems sh by (simp add: agree_on_iff)
  next
    case True
    then have b1: "1 \<le> b" "b < N" using a Suc.prems by auto
    have "[a..<Suc b] = [a..<b] @ [b]" using True by simp
    then obtain rm where rm: "time_loop (loop_body solve dt k0 (A_u J su) (B_u J su) (A_v J sv) (B_v J sv)) [a..<b] r0 = Inr rm"
      and last: "loop_body solve dt k0 (A_u J su) (B_u J su) (A_v J sv) (B_v J sv) b rm = Inr r"
      using Suc.prems(2) by (auto simp: time_loop_snoc bind_r_Inr_iff)
    have IH: "shaped N J rm" "agree_on [0..<a] rm r0" "agree_on [b..<N] rm r0"
      using Suc.IH [OF _ rm] b1 by simp_all
    note R = loop_body_rows [OF J eu ev IH(1) b1 last]
    have "agree_on [0..<a] r r0"
      using IH(2) R(2) True unfolding agree_on_iff by (auto simp: agree_on_iff)
    moreover have "agree_on [Suc b..<N] r r0"
      using IH(3) R(2) unfolding agree_on_iff by (auto simp: agree_on_iff)
    ultimately show ?thesis using R(1) by simp
  qed
qed

lemma loop_prefix:
  assumes J: "2 \<le> J" and eu: "exact_solver solve (A_u J su)" and ev: "exact_solver solve (A_v J sv)"
    and sh: "shaped N J r0" and n: "1 \<le> n" "n \<le> N"
    and run: "time_loop (loop_body solve dt k0 (A_u J su) (B_u J su) (A_v J sv) (B_v J sv)) [1..<N] r0 = Inr r"
  shows "\<exists>rn. time_loop (loop_body solve dt k0 (A_u J su) (B_u J su) (A_v J sv) (B_v J sv)) [1..<n] r0 = Inr rn \<and>
           agree_on [0..<n] rn r \<and> agree_on [n..<N] rn r0"
proof -
  have "[1..<N] = [1..<n] @ [n..<N]"
    using n upt_add_eq_append [of 1 n "N - n"] by simp
  then obtain rn where rn: "time_loop (loop_body solve dt k0 (A_u J su) (B_u J su) (A_v J sv) (B_v J sv)) [1..<n] r0 = Inr rn"
    and rest: "time_loop (loop_body solve dt k0 (A_u J su) (B_u J su) (A_v J sv) (B_v J sv)) [n..<N] rn = Inr r"
    using run by (auto simp: time_loop_append bind_r_Inr_iff)
  have 1: "shaped N J rn" "agree_on [n..<N] rn r0"
    using loop_rows [OF J eu ev sh _ n(2) rn] by simp_all
  have "agree_on [0..<n] r rn"
    using loop_rows [OF J eu ev 1(1) n(1) order_refl rest] by simp
  then have "agree_on [0..<n] rn r"
    by (simp add: agree_on_iff)
  then show ?thesis using rn 1(2) by blast
qed

text \<open>
  Claim C9. For an initial condition of length \<open>J\<close> and solvers exact on the implicit
  operators, a run that returns yields, for each variant, records of exactly \<open>N\<close> entries of
  length \<open>J\<close>; entry 0 is the supplied initial condition, and every entry \<open>n\<close> in \<open>1..N-1\<close>
  is the time step applied to entry \<open>n - 1\<close>. The entries are produced in time order, one
  per iteration: after the iterations \<open>1..n-1\<close> the entries below \<open>n\<close> have their final
  values and the entries from \<open>n\<close> on are still as \<open>numpy.empty\<close> left them. For
  \<open>\<sigma>\<^sub>u, \<sigma>\<^sub>v \<ge> 0\<close> the run does return.
\<close>

theorem trajectory_record:
  assumes "2 \<le> J" and "1 \<le> N" and "length U = J" and "length V = J"
    and "exact_solver solve (A_u J su)" and "exact_solver solve (A_v J sv)"
  shows "(\<forall>r. simulate solve junk J N dt k0 su sv U V = Inr r \<longrightarrow>
           has_shape N J (U_record_ee r) \<and> has_shape N J (V_record_ee r) \<and>
           has_shape N J (U_record_rk r) \<and> has_shape N J (V_record_rk r) \<and>
           U_record_ee r ! 0 = U \<and> V_record_ee r ! 0 = V \<and>
           U_record_rk r ! 0 = U \<and> V_record_rk r ! 0 = V \<and>
           recurrence solve (f_vec_ee dt k0) (A_u J su) (B_u J su) (A_v J sv) (B_v J sv) N
             (U_record_ee r) (V_record_ee r) \<and>
           recurrence solve (f_vec_rk dt k0) (A_u J su) (B_u J su) (A_v J sv) (B_v J sv) N
             (U_record_rk r) (V_record_rk r) \<and>
           (\<forall>n. 1 \<le> n \<and> n \<le> N \<longrightarrow>
              (\<exists>rn. time_loop (loop_body solve dt k0 (A_u J su) (B_u J su) (A_v J sv) (B_v J sv))
                      [1..<n] (initial_records junk N J U V) = Inr rn \<and>
                    agree_on [0..<n] rn r \<and> agree_on [n..<N] rn (initial_records junk N J U V)))) \<and>
         (0 \<le> su \<and> 0 \<le> sv \<longrightarrow> (\<exists>r. simulate solve junk J N dt k0 su sv U V = Inr r))"
proof -
  have "\<exists>rn. time_loop (loop_body solve dt k0 (A_u J su) (B_u J su) (A_v J sv) (B_v J sv))
                      [1..<n] (initial_records junk N J U V) = Inr rn \<and>
             agree_on [0..<n] rn r \<and> agree_on [n..<N] rn (initial_records junk N J U V)"
    if "simulate solve junk J N dt k0 su sv U V = Inr r" "1 \<le> n" "n \<le> N" for r n
    using loop_prefix [OF assms(1,5,6) shaped_initial_records [OF assms(3,4)] that(2,3)
        that(1) [unfolded simulate_unfold [OF assms(3,4,2)]]] .
  then show ?thesis
    using simulate_props [OF assms] simulate_succeeds [OF assms]
    by (simp add: shaped_def)
qed

theorem trajectory_record_witness:
  "\<exists>r. simulate tridiagonal_solve (\<lambda>_ _ _. 0) 2 3 (1 / 2) (1 / 10) 1 2 [1, 2] [3, 4] = Inr r \<and>
     length (U_record_ee r) = 3 \<and> length (V_record_rk r) = 3 \<and>
     U_record_ee r ! 0 = [1, 2] \<and> V_record_ee r ! 0 = [3, 4] \<and>
     U_record_rk r ! 0 = [1, 2] \<and> V_record_rk r ! 0 = [3, 4] \<and>
     time_step tridiagonal_solve (f_vec_rk (1 / 2) (1 / 10)) (A_u 2 1) (B_u 2 1) (A_v 2 2) (B_v 2 2)
       (U_record_rk r ! 0, V_record_rk r ! 0) = Inr (U_record_rk r ! 1, V_record_rk r ! 1)"
proof -
  have eu: "exact_solver tridiagonal_solve (A_u 2 1)" and ev: "exact_solver tridiagonal_solve (A_v 2 2)"
    by (simp_all add: tridiagonal_solve_exact A_v_eq_A_u)
  obtain r where r: "simulate tridiagonal_solve (\<lambda>_ _ _. 0) 2 3 (1 / 2) (1 / 10) 1 2 [1, 2] [3, 4] = Inr r"
    using example_run by blast
  note T = trajectory_record [OF _ _ _ _ eu ev, THEN conjunct1, rule_format, OF _ _ _ _ r]
  have "has_shape 3 2 (U_record_ee r)" "has_shape 3 2 (V_record_rk r)"
    "U_record_ee r ! 0 = [1, 2]" "V_record_ee r ! 0 = [3, 4]"
    "U_record_rk r ! 0 = [1, 2]" "V_record_rk r ! 0 = [3, 4]"
    "recurrence tridiagonal_solve (f_vec_rk (1 / 2) (1 / 10)) (A_u 2 1) (B_u 2 1) (A_v 2 2) (B_v 2 2) 3
       (U_record_rk r) (V_record_rk r)"
    using T by simp_all
  then show ?thesis
    using r by (auto simp: has_shape_def recurrence_iff)
qed

subsection \<open>The scenario of the notebook\<close>


lemma V_init_mass:
  assumes "J \<noteq> 0" "dx \<noteq> 0" "length U = J"
  shows "\<exists>V. V_init tp J dx U = Inr V \<and> length V = J \<and> mass dx U V = tp"
proof -
  let ?v = "(tp - dx * sum_list U) / (real J * dx)"
  have "V_init tp J dx U = Inr (replicate J ?v)"
    using assms by (simp add: V_init_def py_div_def)
  moreover have "mass dx U (replicate J ?v) = tp"
  proof -
    have "dx * (real J * ?v) = tp - dx * sum_list U"
      using assms by simp
    then show ?thesis
      using assms by (simp add: mass_eq sum_list_replicate distrib_left)
  qed
  ultimately show ?thesis by simp
qed

text \<open>
  Claim C7 as stated fails: in the notebook the initial \<open>U\<close> is not 2.0 on the first grid
  point, and not 0.1 on the last.
\<close>

theorem notebook_U_not_high_first:
  "U_init (c_J notebook) (c_no_high notebook) ! 0 \<noteq> 2 \<and>
   U_init (c_J notebook) (c_no_high notebook) ! 199 \<noteq> 1 / 10"
  by (simp add: notebook_def U_init_def nth_append)

text \<open>
  Claim C7, amended. In the scenario of the notebook (\<open>J = 200\<close>, total mass 2.26) the
  initial \<open>U\<close> is 0.1 on the first 190 grid points and 2.0 on the last 10, and the initial
  \<open>V\<close>, with which the script starts the simulation, makes the discrete total mass
  \<open>\<Sum>\<^sub>j (U\<^sub>j + V\<^sub>j)\<cdot>dx\<close> equal to 2.26, where \<open>dx = 1/199\<close>.
\<close>

theorem notebook_initial_condition:
  "U_init (c_J notebook) (c_no_high notebook) = replicate 190 (1 / 10) @ replicate 10 2 \<and>
   (\<exists>V su sv. length V = 200 \<and>
      mass (1 / 199) (U_init (c_J notebook) (c_no_high notebook)) V = 226 / 100 \<and>
      (\<Sum>j = 0..<200. (U_init (c_J notebook) (c_no_high notebook) ! j + V ! j) * (1 / 199)) = 226 / 100 \<and>
      (\<forall>solve junk. run solve junk notebook =
         simulate solve junk 200 1000 (500 / 999) (67 / 1000) su sv
           (replicate 190 (1 / 10) @ replicate 10 2) V))"
proof -
  have U: "U_init (c_J notebook) (c_no_high notebook) = replicate 190 (1 / 10) @ replicate 10 2"
    by (simp add: notebook_def U_init_def)
  obtain V where V: "V_init (226 / 100) 200 (1 / 199) (replicate 190 (1 / 10) @ replicate 10 2) = Inr V"
    "length V = 200" "mass (1 / 199) (replicate 190 (1 / 10) @ replicate 10 2) V = 226 / 100"
    using V_init_mass [of 200 "1 / 199" "replicate 190 (1 / 10) @ replicate 10 2" "226 / 100"]
    by auto
  have "run solve junk notebook =
         simulate solve junk 200 1000 (500 / 999) (67 / 1000)
           (1 / 100 * (10 / 100) * (500 / 999) / (2 * (1 / 199) * (1 / 199)))
           (10 / 100 * (500 / 999) / (2 * (1 / 199) * (1 / 199)))
           (replicate 190 (1 / 10) @ replicate 10 2) V" for solve junk
    using V(1) by (simp add: run_def notebook_def py_div_def sigma_u_def sigma_v_def U_init_def)
  moreover have "(\<Sum>j = 0..<200. ((replicate 190 (1 / 10) @ replicate 10 2) ! j + V ! j) * (1 / 199)) =
      226 / 100"
    using mass_as_sum [of "replicate 190 (1 / 10) @ replicate 10 2" 200 V "1 / 199"] V(2,3) by simp
  ultimately show ?thesis
    unfolding U using V(2,3) by blast
qed

subsection \<open>The operators in float64\<close>

lemma fl64_0 [simp]: "fl64 0 = 0"
  by (simp add: fl64_def round_half_even_def)

lemma round_half_even_of_int [simp]: "round_half_even (of_int n) = n"
  by (simp add: round_half_even_def)

lemma fl64_multiple:
  assumes n: "\<bar>x\<bar> * 2 ^ 1074 = of_int n" "0 < n" and k: "bitlen n = k" "53 \<le> k"
  shows "fl64 x = of_int (round_half_even (x / 2 powi (k - 1127))) * 2 powi (k - 1127)"
proof -
  have 2: "\<lfloor>\<bar>x\<bar> * 2 ^ 1074\<rfloor> = n"
    unfolding n(1) by (rule floor_of_int)
  have 4: "max (k - 1075) (- 1022) = k - 1075"
    using k(2) by simp
  have 5: "k - 1075 - 52 = k - 1127" by simp
  show ?thesis
    unfolding fl64_def Let_def 2 k(1) 4 5 ..
qed

lemma bitlen_1: "bitlen 1 = 1"
  using bitlen_twopow_add_eq [of 0 0] by simp

lemma fl64_pow2:
  assumes "- 1022 \<le> j"
  shows "fl64 (2 powi j) = 2 powi j" "fl64 (- (2 powi j)) = - (2 powi j)"
proof -
  define n :: int where "n = 1 * 2 ^ nat (j + 1074)"
  have n: "0 < n" and k: "bitlen n = j + 1075"
    using assms bitlen_pow2 [of 1 "nat (j + 1074)"] by (simp_all add: n_def bitlen_1)
  have "(2::real) powi j * 2 ^ 1074 = 2 powi (j + 1074)"
    by (simp add: power_int_add)
  also have "\<dots> = of_int n"
    using assms by (simp add: n_def power_int_def)
  finally have a: "\<bar>(2::real) powi j\<bar> * 2 ^ 1074 = of_int n" "\<bar>- ((2::real) powi j)\<bar> * 2 ^ 1074 = of_int n"
    by simp_all
  have d: "(2::real) powi j / 2 powi (j + 1075 - 1127) = of_int (2 ^ 52)"
    by (simp add: power_int_diff power_int_add field_simps)
  then have d': "- ((2::real) powi j) / 2 powi (j + 1075 - 1127) = of_int (- (2 ^ 52))"
    by simp
  have m: "(2::real) ^ 52 * 2 powi (j + 1075 - 1127) = 2 powi j"
    by (simp add: power_int_diff power_int_add field_simps)
  have k53: "53 \<le> j + 1075" using assms by simp
  show "fl64 (2 powi j) = 2 powi j"
    unfolding fl64_multiple [OF a(1) n k k53] d round_half_even_of_int using m by simp
  show "fl64 (- (2 powi j)) = - (2 powi j)"
    unfolding fl64_multiple [OF a(2) n k k53] d' round_half_even_of_int using m by simp
qed

lemma fl64_absorb_1:
  assumes "54 \<le> j"
  shows "fl64 (1 + 2 ^ j) = 2 ^ j"
proof -
  define m where "m = j - 52"
  have j: "j = m + 52" and m: "2 \<le> m" using assms by (simp_all add: m_def)
  define n :: int where "n = (2 ^ j + 1) * 2 ^ 1074"
  have n: "0 < n" by (simp add: n_def add_pos_nonneg)
  have "(1::int) < 2 ^ j"
    using assms by (intro one_less_power) simp_all
  then have "bitlen (2 ^ j + 1) = int j + 1"
    using bitlen_twopow_add_eq [of 1 j] by simp
  then have k: "bitlen n = int j + 1075"
    unfolding n_def using bitlen_pow2 [of "2 ^ j + 1" 1074] by (simp add: add_pos_nonneg)
  have a: "\<bar>1 + (2::real) ^ j\<bar> * 2 ^ 1074 = of_int n"
    by (simp add: n_def abs_of_pos add_pos_nonneg add.commute)
  have u: "(2::real) powi (int j + 1075 - 1127) = 2 ^ m"
    unfolding j by (simp add: power_int_def)
  have small: "(1::real) / 2 ^ m \<le> 1 / 4"
    using m power_increasing [of 2 m "2::real"] by (simp add: field_simps)
  have q: "(1 + (2::real) ^ j) / 2 ^ m = of_int (2 ^ 52) + 1 / 2 ^ m"
    unfolding j by (simp add: power_add field_simps)
  have fl: "\<lfloor>(1 + (2::real) ^ j) / 2 ^ m\<rfloor> = 2 ^ 52"
    unfolding q using small by (intro floor_unique) simp_all
  have r: "round_half_even ((1 + (2::real) ^ j) / 2 ^ m) = 2 ^ 52"
    unfolding round_half_even_def Let_def fl using small unfolding q by simp
  have k53: "53 \<le> int j + 1075" by simp
  have "fl64 (1 + 2 ^ j) = of_int (2 ^ 52) * 2 ^ m"
    unfolding fl64_multiple [OF a n k k53] u r ..
  then show ?thesis
    unfolding j by (simp add: power_add)
qed

lemma fl64_pow2_nat:
  "fl64 (2 ^ j) = 2 ^ j" "fl64 (- (2 ^ j)) = - (2 ^ j)"
  using fl64_pow2 [of "int j"] by simp_all

lemma floats_absorbed:
  assumes "54 \<le> j"
  shows "fl64 (2 ^ j) = 2 ^ j" "fl64 (- (2 ^ j)) = - (2 ^ j)" "fl64 (2 * 2 ^ j) = 2 * 2 ^ j"
    "add64 1 (2 ^ j) = 2 ^ j" "mul64 2 (2 ^ j) = 2 * 2 ^ j" "add64 1 (2 * 2 ^ j) = 2 * 2 ^ j"
proof -
  show "fl64 (2 ^ j) = 2 ^ j" "fl64 (- (2 ^ j)) = - (2 ^ j)"
    by (rule fl64_pow2_nat)+
  show 2: "fl64 (2 * 2 ^ j) = 2 * 2 ^ j"
    using fl64_pow2_nat(1) [of "Suc j"] by simp
  show "add64 1 (2 ^ j) = 2 ^ j"
    unfolding add64_def using assms by (rule fl64_absorb_1)
  show "mul64 2 (2 ^ j) = 2 * 2 ^ j"
    unfolding mul64_def by (rule 2)
  show "add64 1 (2 * 2 ^ j) = 2 * 2 ^ j"
    unfolding add64_def using fl64_absorb_1 [of "Suc j"] assms by simp
qed

lemma mat_add64_matrix_of:
  "mat_add64 (matrix_of n e1) (matrix_of n e2) = matrix_of n (\<lambda>i j. add64 (e1 i j) (e2 i j))"
  by (simp add: mat_add64_def matrix_of_def zip_map_map zip_same_conv_map)

lemma tridiag64_matrix_of:
  assumes "2 \<le> J" and fp: "fl64 c = c" "fl64 de = de" "fl64 dm = dm"
  shows "mat_add64 (mat_add64 (diagflat (replicate (J - 1) c) (- 1))
                              (diagflat ([de] @ replicate (J - 2) dm @ [de]) 0))
                   (diagflat (replicate (J - 1) c) 1)
       = matrix_of J (\<lambda>i j. if i = j then (if i = 0 \<or> i = J - 1 then de else dm)
                             else if i = j + 1 \<or> j = i + 1 then c else 0)"
proof -
  have l1: "length (replicate (J - 1) c) + nat \<bar>- 1::int\<bar> = J" using assms by simp
  have l2: "length ([de] @ replicate (J - 2) dm @ [de]) + nat \<bar>0::int\<bar> = J" using assms by simp
  have l3: "length (replicate (J - 1) c) + nat \<bar>1::int\<bar> = J" using assms by simp
  show ?thesis
    unfolding diagflat_matrix_of l1 l2 l3 mat_add64_matrix_of
    by (rule matrix_of_cong) (use assms in \<open>auto simp: nth_append nth_Cons' min_def add64_def\<close>)
qed


lemma A_v_f64_absorbed:
  assumes "2 \<le> J" "54 \<le> j"
  shows "A_v_f64 J (2 ^ j) =
     matrix_of J (\<lambda>i k. if i = k then (if i = 0 \<or> i = J - 1 then 2 ^ j else 2 * 2 ^ j)
                           else if i = k + 1 \<or> k = i + 1 then - (2 ^ j) else 0)"
  unfolding A_v_f64_def floats_absorbed(4,5,6) [OF assms(2)]
  by (rule tridiag64_matrix_of [OF assms(1)]) (rule floats_absorbed [OF assms(2)])+






lemma absorbed_column_sum:
  fixes s :: real and J :: nat
  assumes "2 \<le> J" "k < J"
  shows "(\<Sum>i = 0..<J. if i = k then (if i = 0 \<or> i = J - 1 then s else 2 * s)
                          else if i = k + 1 \<or> k = i + 1 then - s else 0) = 0"
proof -
  have "(\<Sum>i = 0..<J. if i = k then (if i = 0 \<or> i = J - 1 then s else 2 * s)
                          else if i = k + 1 \<or> k = i + 1 then - s else 0) =
     (\<Sum>i = 0..<J. (if k = i then (if k = 0 \<or> k = J - 1 then s else 2 * s)
        else if k = i + 1 \<or> i = k + 1 then - s else 0) * 1)"
    by (rule sum.cong) auto
  also have "\<dots> = 0"
    unfolding tri_sum [OF assms(2)] using assms by auto
  finally show ?thesis .
qed

lemma sum_list_mat_vec_0:
  assumes "length x = J" and cs: "\<And>j. j < J \<Longrightarrow> (\<Sum>i = 0..<J. e i j) = 0"
  shows "sum_list (mat_vec (matrix_of J e) x) = 0"
proof -
  have "sum_list (mat_vec (matrix_of J e) x) = (\<Sum>i = 0..<J. \<Sum>j = 0..<J. e i j * x ! j)"
    using assms(1) by (simp add: mat_vec_matrix_of interv_sum_list_conv_sum_set_nat)
  also have "\<dots> = (\<Sum>j = 0..<J. \<Sum>i = 0..<J. e i j * x ! j)"
    by (rule sum.swap)
  also have "\<dots> = (\<Sum>j = 0..<J. (\<Sum>i = 0..<J. e i j) * x ! j)"
    by (simp add: sum_distrib_right)
  also have "\<dots> = 0"
    by (rule sum.neutral) (simp add: cs)
  finally show ?thesis .
qed

lemma float64_solve_fails:
  assumes J: "2 \<le> J" and j: "54 \<le> j" and ex: "exact_solver solve (A_v_f64 J (2 ^ j))"
  shows "solve (A_v_f64 J (2 ^ j)) (1 # replicate (J - 1) 0) = Inl LinAlgError"
proof (cases "solve (A_v_f64 J (2 ^ j)) (1 # replicate (J - 1) 0)")
  case (Inl e)
  have "length (1 # replicate (J - 1) (0::real)) = length (A_v_f64 J (2 ^ j))"
    using J by (simp add: A_v_f64_absorbed [OF J j])
  with ex [unfolded exact_solver_def, rule_format, of "1 # replicate (J - 1) 0"] Inl
  show ?thesis by simp
next
  case (Inr x)
  have len: "length (A_v_f64 J (2 ^ j)) = J"
    by (simp add: A_v_f64_absorbed [OF J j])
  have lb: "length (1 # replicate (J - 1) (0::real)) = length (A_v_f64 J (2 ^ j))"
    using J len by simp
  have x: "length x = J" "mat_vec (A_v_f64 J (2 ^ j)) x = 1 # replicate (J - 1) 0"
    using exact_solverD [OF ex lb Inr] len by simp_all
  have "sum_list (mat_vec (A_v_f64 J (2 ^ j)) x) = 0"
    unfolding A_v_f64_absorbed [OF J j]
    by (rule sum_list_mat_vec_0 [OF x(1)]) (rule absorbed_column_sum [OF J])
  then show ?thesis
    unfolding x(2) by (simp add: sum_list_replicate)
qed


subsection \<open>Invertibility of the implicit operator over the reals\<close>




end
